theory Spec2Isabelle
  imports Complex_Main
begin

section \<open>Strings, numbers and the runtime\<close>

text \<open>
  A string of the program is a sequence of UTF-16 code units, which is what \<open>length\<close>,
  \<open>includes\<close>, \<open>===\<close> and a regular expression without the \<open>u\<close> flag work on. A code
  unit is a natural number; \<open>js\<close> turns an ASCII literal into such a string.
\<close>

type_synonym jsstring = "nat list"

definition js :: "string \<Rightarrow> jsstring" where
  "js s = map of_char s"

text \<open>The character classes \<open>\d\<close> and \<open>[+-]\<close>, and the white space that \<open>\s\<close> and
  \<open>String.prototype.trim\<close> share (WhiteSpace and LineTerminator of ECMAScript).\<close>

definition isDigit :: "nat \<Rightarrow> bool" where
  "isDigit c = (48 \<le> c \<and> c \<le> 57)"

definition isSign :: "nat \<Rightarrow> bool" where
  "isSign c = (c = 43 \<or> c = 45)"

definition isWhiteSpace :: "nat \<Rightarrow> bool" where
  "isWhiteSpace c =
     (c \<in> set [9, 10, 11, 12, 13, 32, 160, 5760, 8232, 8233, 8239, 8287, 12288, 65279]
      \<or> (8192 \<le> c \<and> c \<le> 8202))"

definition trim :: "jsstring \<Rightarrow> jsstring" where
  "trim s = rev (dropWhile isWhiteSpace (rev (dropWhile isWhiteSpace s)))"

text \<open>\<open>String.prototype.includes\<close>: the second string occurs in the first as a contiguous
  block; the empty string occurs everywhere.\<close>

fun startsWith :: "jsstring \<Rightarrow> jsstring \<Rightarrow> bool" where
  "startsWith s [] = True"
| "startsWith [] (c # t) = False"
| "startsWith (d # s) (c # t) = (d = c \<and> startsWith s t)"

fun str_includes :: "jsstring \<Rightarrow> jsstring \<Rightarrow> bool" where
  "str_includes [] t = (t = [])"
| "str_includes (c # s) t = (startsWith (c # s) t \<or> str_includes s t)"

text \<open>\<open>/\d/.test(s)\<close>.\<close>

definition hasDigit :: "jsstring \<Rightarrow> bool" where
  "hasDigit s = list_ex isDigit s"

text \<open>
  A number of the program is a finite value or NaN. A finite value is the rational that
  the double stands for; the infinities are not modelled.
\<close>

datatype jsnumber = Num rat | NaN

text \<open>A cell of a spreadsheet row typed \<open>string | number\<close>.\<close>

datatype raw_value = JStr jsstring | JNum jsnumber

text \<open>
  Four functions of the JavaScript runtime depend on Unicode tables, on the format of
  doubles or on the locale: \<open>String.prototype.toLowerCase\<close>,
  \<open>Number.prototype.toString\<close>, \<open>String.prototype.localeCompare\<close>, and the rounding of
  the value of a decimal numeral to the nearest double, which \<open>parseFloat\<close> performs
  (\<open>toDouble\<close>). They are parameters of the model, so that every general theorem holds
  whatever they compute.
\<close>

record js_runtime =
  toLowerCase :: "jsstring \<Rightarrow> jsstring"
  numberToString :: "jsnumber \<Rightarrow> jsstring"
  localeCompare :: "jsstring \<Rightarrow> jsstring \<Rightarrow> int"
  toDouble :: "rat \<Rightarrow> rat"

text \<open>\<open>value.toString()\<close> for \<open>value: string | number\<close>.\<close>

definition valueToString :: "js_runtime \<Rightarrow> raw_value \<Rightarrow> jsstring" where
  "valueToString rt v = (case v of JStr s \<Rightarrow> s | JNum n \<Rightarrow> numberToString rt n)"

text \<open>
  The runtime of the concrete examples. On ASCII strings its \<open>toLowerCase\<close> is the
  runtime's; its \<open>numberToString\<close> prints NaN and the integers (below \<open>10^21\<close> in size) as
  the runtime does and is not meant for other numbers; its \<open>localeCompare\<close> compares code
  units, which is not a locale's order; its \<open>toDouble\<close> does not round, so that a numeral
  of an example stands for the double nearest to it. The examples below use ASCII strings,
  none of them prints a fraction or compares two keys by locale, and none compares two
  numbers that rounding could bring together.
\<close>

definition asciiLower :: "nat \<Rightarrow> nat" where
  "asciiLower c = (if 65 \<le> c \<and> c \<le> 90 then c + 32 else c)"

fun digitsOf :: "nat \<Rightarrow> nat \<Rightarrow> jsstring \<Rightarrow> jsstring" where
  "digitsOf 0 n acc = acc"
| "digitsOf (Suc fuel) n acc =
     (if n < 10 then (48 + n) # acc else digitsOf fuel (n div 10) ((48 + n mod 10) # acc))"

definition integerToString :: "int \<Rightarrow> jsstring" where
  "integerToString i =
     (if i < 0 then 45 # digitsOf 22 (nat (- i)) [] else digitsOf 22 (nat i) [])"

fun codeUnitCompare :: "jsstring \<Rightarrow> jsstring \<Rightarrow> int" where
  "codeUnitCompare [] [] = 0"
| "codeUnitCompare [] (c # t) = - 1"
| "codeUnitCompare (d # s) [] = 1"
| "codeUnitCompare (d # s) (c # t) =
     (if d < c then - 1 else if c < d then 1 else codeUnitCompare s t)"

definition ascii_runtime :: js_runtime where
  "ascii_runtime =
     \<lparr> toLowerCase = map asciiLower,
       numberToString = (\<lambda>n. case n of NaN \<Rightarrow> js ''NaN''
                                | Num r \<Rightarrow> integerToString \<lfloor>r\<rfloor>),
       localeCompare = codeUnitCompare,
       toDouble = (\<lambda>r. r) \<rparr>"

section \<open>comparisonHelpers.ts\<close>

subsection \<open>The numeric token\<close>

text \<open>
  \<open>numberToken s\<close> is the match of \<open>[+-]?\d*\.?\d+\<close> at the start of \<open>s\<close>: the capture and
  the rest of the string. The quantifiers are greedy, so the sign is taken when there is
  one, then the whole run of digits, then a dot when a digit follows it, and the run of
  digits after the dot. When no digit follows the dot, or there is no dot, the matcher
  backtracks into the first run, which must then give its last digit to \<open>\d+\<close>: the
  capture is the sign and the run. Any other way of matching the pattern ends in front of
  a digit or of a dot, where neither \<open>\s*-\<close> nor \<open>$\<close> can go on, so this is also the only
  capture that the pattern of \<open>parseRange\<close> can use.
\<close>

definition numberToken :: "jsstring \<Rightarrow> (jsstring \<times> jsstring) option" where
  "numberToken s =
     (let sg = (case s of c # cs \<Rightarrow> if isSign c then [c] else [] | [] \<Rightarrow> []);
          s1 = drop (length sg) s;
          d1 = takeWhile isDigit s1;
          r1 = dropWhile isDigit s1;
          d2 = (case r1 of c # cs \<Rightarrow> if c = 46 then takeWhile isDigit cs else [] | [] \<Rightarrow> [])
      in if d2 \<noteq> [] then Some (sg @ d1 @ [46] @ d2, dropWhile isDigit (tl r1))
         else if d1 \<noteq> [] then Some (sg @ d1, r1)
         else None)"

text \<open>
  \<open>parseFloat\<close> on a string made of white space, a sign, digits and a dot, which is all the
  program gives it (the captures of the pattern above); exponents and \<open>Infinity\<close> are not
  modelled. The result is NaN when there is no digit, and otherwise the double nearest to
  the value of the digits, with the sign of the numeral.
\<close>

definition digitsValue :: "jsstring \<Rightarrow> nat" where
  "digitsValue ds = foldl (\<lambda>a c. 10 * a + (c - 48)) 0 ds"

definition parseFloat :: "js_runtime \<Rightarrow> jsstring \<Rightarrow> jsnumber" where
  "parseFloat rt s =
     (let s0 = dropWhile isWhiteSpace s;
          neg = (case s0 of c # cs \<Rightarrow> c = 45 | [] \<Rightarrow> False);
          s1 = (case s0 of c # cs \<Rightarrow> if isSign c then cs else s0 | [] \<Rightarrow> s0);
          ip = takeWhile isDigit s1;
          r = dropWhile isDigit s1;
          fp = (case r of c # cs \<Rightarrow> if c = 46 then takeWhile isDigit cs else [] | [] \<Rightarrow> []);
          m = toDouble rt (of_nat (digitsValue ip) + of_nat (digitsValue fp) / 10 ^ length fp)
      in if ip = [] \<and> fp = [] then NaN else Num (if neg then - m else m))"

subsection \<open>extractNumericValue\<close>

definition extractNumericValue :: "js_runtime \<Rightarrow> raw_value \<Rightarrow> jsnumber option" where
  "extractNumericValue rt v =
     (case v of
        JNum n \<Rightarrow> Some n
      | JStr s \<Rightarrow> (case numberToken s of
                     Some (t, r) \<Rightarrow> Some (parseFloat rt t)
                   | None \<Rightarrow> None))"

subsection \<open>parseRange\<close>

text \<open>The two replacements: every comma is removed, every en dash (U+2013) becomes a
  hyphen.\<close>

definition cleanRange :: "jsstring \<Rightarrow> jsstring" where
  "cleanRange rng = map (\<lambda>c. if c = 8211 then 45 else c) (filter (\<lambda>c. c \<noteq> 44) rng)"

text \<open>The match of \<open>^([+-]?\d*\.?\d+)\s*-\s*([+-]?\d*\.?\d+)$\<close>: the two captures.\<close>

definition rangeMatch :: "jsstring \<Rightarrow> (jsstring \<times> jsstring) option" where
  "rangeMatch s =
     (case numberToken s of
        None \<Rightarrow> None
      | Some (t1, r1) \<Rightarrow>
          (case dropWhile isWhiteSpace r1 of
             [] \<Rightarrow> None
           | c # r2 \<Rightarrow>
               if c = 45 then
                 (case numberToken (dropWhile isWhiteSpace r2) of
                    None \<Rightarrow> None
                  | Some (t2, r3) \<Rightarrow> if r3 = [] then Some (t1, t2) else None)
               else None))"

definition parseRange :: "js_runtime \<Rightarrow> jsstring \<Rightarrow> (jsnumber \<times> jsnumber) option" where
  "parseRange rt rng =
     (case rangeMatch (cleanRange rng) of
        Some (t1, t2) \<Rightarrow>
          (let mn = parseFloat rt t1; mx = parseFloat rt t2
           in if mn \<noteq> NaN \<and> mx \<noteq> NaN then Some (mn, mx) else None)
      | None \<Rightarrow> None)"

subsection \<open>isWithinRange\<close>

text \<open>\<open>a >= b\<close> and \<open>a <= b\<close> on numbers: false as soon as one side is NaN.\<close>

fun num_le :: "jsnumber \<Rightarrow> jsnumber \<Rightarrow> bool" where
  "num_le (Num a) (Num b) = (a \<le> b)"
| "num_le a b = False"

definition num_ge :: "jsnumber \<Rightarrow> jsnumber \<Rightarrow> bool" where
  "num_ge a b = num_le b a"

definition isWithinRange :: "js_runtime \<Rightarrow> raw_value \<Rightarrow> jsstring \<Rightarrow> bool" where
  "isWithinRange rt v rng =
     (case (extractNumericValue rt v, parseRange rt rng) of
        (Some numericValue, Some (mn, mx)) \<Rightarrow> num_ge numericValue mn \<and> num_le numericValue mx
      | _ \<Rightarrow> False)"

subsection \<open>matchesString\<close>

definition matchesString :: "js_runtime \<Rightarrow> raw_value \<Rightarrow> jsstring \<Rightarrow> bool" where
  "matchesString rt v expected =
     (let stringValue = toLowerCase rt (trim (valueToString rt v));
          expectedValue = toLowerCase rt (trim expected)
      in if str_includes stringValue (js ''+/-'') \<or> str_includes stringValue (js ''negative +/-'')
         then expectedValue = js ''negative''
         else stringValue = expectedValue)"

section \<open>types.ts\<close>

text \<open>
  The rows of the two spreadsheets. A cell that the sheet leaves empty is absent from the
  row object, and the program reads every field through \<open>?.\<close>, so a field is optional.
  The pass-through columns of a row play no part in the resolution and are left out.
\<close>

record PatientDataRow =
  LBTEST :: "jsstring option"
  LBORRES :: "raw_value option"
  Gender :: "jsstring option"

record ReferenceDataRow =
  Parameter :: "jsstring option"
  Normal_Range :: "jsstring option"
  Gender_Notes :: "jsstring option"

text \<open>
  \<open>Map<string, ReferenceDataRow[]>\<close>: the keys in insertion order with their entries.
  \<open>Array.from(referenceMap.keys())\<close> is \<open>map fst\<close> and \<open>referenceMap.get\<close> is \<open>map_of\<close>.
\<close>

type_synonym ReferenceMap = "(jsstring \<times> ReferenceDataRow list) list"

section \<open>referenceMatcher.ts\<close>

text \<open>\<open>x?.toString().trim().toLowerCase()\<close>: undefined when the field is.\<close>

definition normalized :: "js_runtime \<Rightarrow> jsstring option \<Rightarrow> jsstring option" where
  "normalized rt x = map_option (\<lambda>s. toLowerCase rt (trim s)) x"

subsection \<open>selectBestGenderMatch\<close>

text \<open>\<open>===\<close> between two optional strings is equality of options: undefined equals
  undefined only.\<close>

definition selectBestGenderMatch ::
  "js_runtime \<Rightarrow> ReferenceDataRow list \<Rightarrow> jsstring option \<Rightarrow> ReferenceDataRow option" where
  "selectBestGenderMatch rt references patientGender =
     (if references = [] then None
      else case find (\<lambda>r. normalized rt (Gender_Notes r) = patientGender) references of
             Some exactGenderMatch \<Rightarrow> Some exactGenderMatch
           | None \<Rightarrow>
               (case find (\<lambda>r. normalized rt (Gender_Notes r) = Some (js ''both'')) references of
                  Some bothGenderMatch \<Rightarrow> Some bothGenderMatch
                | None \<Rightarrow> Some (hd references)))"

text \<open>The calls \<open>selectBestGenderMatch(referenceMap.get(key)!, ...)\<close>: an undefined list
  gives null by the test \<open>!references\<close>.\<close>

definition selectFromKey ::
  "js_runtime \<Rightarrow> ReferenceMap \<Rightarrow> jsstring \<Rightarrow> jsstring option \<Rightarrow> ReferenceDataRow option" where
  "selectFromKey rt referenceMap key patientGender =
     (case map_of referenceMap key of
        Some matchingRefs \<Rightarrow> selectBestGenderMatch rt matchingRefs patientGender
      | None \<Rightarrow> None)"

subsection \<open>The parts of findBestReferenceMatch\<close>

text \<open>\<open>ref['Normal Range']?.toString() || ''\<close> and \<open>patientRow.LBORRES?.toString() || ''\<close>.\<close>

definition normalRange :: "ReferenceDataRow \<Rightarrow> jsstring" where
  "normalRange r = (case Normal_Range r of Some s \<Rightarrow> s | None \<Rightarrow> [])"

definition patientValue :: "js_runtime \<Rightarrow> PatientDataRow \<Rightarrow> jsstring" where
  "patientValue rt patientRow =
     (case LBORRES patientRow of Some v \<Rightarrow> valueToString rt v | None \<Rightarrow> [])"

text \<open>The filter of \<open>numericRanges\<close> (lines 76-79 and 172-175).\<close>

definition isNumericRange :: "js_runtime \<Rightarrow> ReferenceDataRow \<Rightarrow> bool" where
  "isNumericRange rt r =
     (hasDigit (normalRange r)
      \<and> \<not> str_includes (toLowerCase rt (normalRange r)) (js ''negative'')
      \<and> \<not> str_includes (toLowerCase rt (normalRange r)) (js ''positive''))"

text \<open>\<open>allRefOptions\<close>: the entries of the given keys, key after key. (The key stored with
  each entry is only logged.)\<close>

definition refOptions :: "ReferenceMap \<Rightarrow> jsstring list \<Rightarrow> ReferenceDataRow list" where
  "refOptions referenceMap keys =
     concat (map (\<lambda>key. case map_of referenceMap key of Some refs \<Rightarrow> refs | None \<Rightarrow> []) keys)"

text \<open>
  The functions below return \<open>Some result\<close> where the source executes \<open>return result\<close>
  (a result that may be null) and \<open>None\<close> where it goes on to the next statement.

  Lines 75-99 and 171-195: the numeric ranges among the options are preferred when the
  value of the patient has a digit.
\<close>

definition numericOverride ::
  "js_runtime \<Rightarrow> PatientDataRow \<Rightarrow> ReferenceMap \<Rightarrow> jsstring option \<Rightarrow> jsstring list
     \<Rightarrow> ReferenceDataRow option option" where
  "numericOverride rt patientRow referenceMap patientGender keys =
     (let numericRanges = filter (isNumericRange rt) (refOptions referenceMap keys);
          isPatientValueNumeric = hasDigit (patientValue rt patientRow)
      in if isPatientValueNumeric \<and> numericRanges \<noteq> [] then
           (case selectBestGenderMatch rt numericRanges patientGender of
              Some bestNumericRef \<Rightarrow> Some (Some bestNumericRef)
            | None \<Rightarrow> None)
         else None)"

definition isGlucose :: "js_runtime \<Rightarrow> jsstring \<Rightarrow> bool" where
  "isGlucose rt testName =
     (toLowerCase rt testName = js ''glucose''
      \<or> str_includes (toLowerCase rt testName) (js ''glucose''))"

text \<open>Lines 44-56. A string in a condition is true when it is not empty.\<close>

definition glucoseOverride ::
  "js_runtime \<Rightarrow> ReferenceMap \<Rightarrow> jsstring \<Rightarrow> jsstring option \<Rightarrow> jsstring list
     \<Rightarrow> ReferenceDataRow option option" where
  "glucoseOverride rt referenceMap testName patientGender betterAlternatives =
     (if isGlucose rt testName then
        (case find (\<lambda>alt. str_includes (toLowerCase rt alt) (js ''fasting'')) betterAlternatives of
           Some fastingMatch \<Rightarrow>
             if fastingMatch \<noteq> [] then
               (case map_of referenceMap fastingMatch of
                  Some fastingRefs \<Rightarrow> Some (selectBestGenderMatch rt fastingRefs patientGender)
                | None \<Rightarrow> None)
             else None
         | None \<Rightarrow> None)
      else None)"

text \<open>Lines 34-39.\<close>

definition betterAlternatives :: "js_runtime \<Rightarrow> ReferenceMap \<Rightarrow> jsstring \<Rightarrow> jsstring list" where
  "betterAlternatives rt referenceMap testName =
     filter (\<lambda>key. str_includes (toLowerCase rt key) (toLowerCase rt testName)
                   \<and> toLowerCase rt key \<noteq> toLowerCase rt testName)
            (map fst referenceMap)"

text \<open>Lines 41-100.\<close>

definition exactOverride ::
  "js_runtime \<Rightarrow> PatientDataRow \<Rightarrow> ReferenceMap \<Rightarrow> jsstring \<Rightarrow> jsstring option \<Rightarrow> jsstring
     \<Rightarrow> ReferenceDataRow option option" where
  "exactOverride rt patientRow referenceMap testName patientGender exactMatch =
     (let alts = betterAlternatives rt referenceMap testName
      in if alts \<noteq> [] then
           (case glucoseOverride rt referenceMap testName patientGender alts of
              Some result \<Rightarrow> Some result
            | None \<Rightarrow> numericOverride rt patientRow referenceMap patientGender (exactMatch # alts))
         else None)"

text \<open>Lines 105-123.\<close>

definition finalGlucoseCheck ::
  "js_runtime \<Rightarrow> PatientDataRow \<Rightarrow> ReferenceMap \<Rightarrow> jsstring \<Rightarrow> jsstring option \<Rightarrow> jsstring
     \<Rightarrow> ReferenceDataRow option option" where
  "finalGlucoseCheck rt patientRow referenceMap testName patientGender exactMatch =
     (if isGlucose rt testName \<and> hasDigit (patientValue rt patientRow) then
        (case find (\<lambda>key. str_includes (toLowerCase rt key) (js ''glucose'')
                          \<and> str_includes (toLowerCase rt key) (js ''fasting''))
                   (map fst referenceMap) of
           Some fastingKey \<Rightarrow>
             if fastingKey \<noteq> [] \<and> fastingKey \<noteq> exactMatch then
               (case map_of referenceMap fastingKey of
                  Some fastingRefs \<Rightarrow> Some (selectBestGenderMatch rt fastingRefs patientGender)
                | None \<Rightarrow> None)
             else None
         | None \<Rightarrow> None)
      else None)"

text \<open>Strategy 1, lines 30-128.\<close>

definition exactStrategy ::
  "js_runtime \<Rightarrow> PatientDataRow \<Rightarrow> ReferenceMap \<Rightarrow> jsstring \<Rightarrow> jsstring option \<Rightarrow> jsstring
     \<Rightarrow> ReferenceDataRow option" where
  "exactStrategy rt patientRow referenceMap testName patientGender exactMatch =
     (case exactOverride rt patientRow referenceMap testName patientGender exactMatch of
        Some result \<Rightarrow> result
      | None \<Rightarrow>
          (case finalGlucoseCheck rt patientRow referenceMap testName patientGender exactMatch of
             Some result \<Rightarrow> result
           | None \<Rightarrow> selectFromKey rt referenceMap exactMatch patientGender))"

text \<open>
  \<open>Array.prototype.sort\<close> with a comparison function: the sort is stable, and an element
  goes in front of another when the function is negative. With a function that is not a
  consistent order the runtime may answer otherwise.
\<close>

fun insertBy :: "('a \<Rightarrow> 'a \<Rightarrow> int) \<Rightarrow> 'a \<Rightarrow> 'a list \<Rightarrow> 'a list" where
  "insertBy cmp x [] = [x]"
| "insertBy cmp x (y # ys) = (if cmp x y \<le> 0 then x # y # ys else y # insertBy cmp x ys)"

definition sortBy :: "('a \<Rightarrow> 'a \<Rightarrow> int) \<Rightarrow> 'a list \<Rightarrow> 'a list" where
  "sortBy cmp xs = foldr (insertBy cmp) xs []"

text \<open>The comparison function of lines 139-152.\<close>

definition containsCompare :: "js_runtime \<Rightarrow> jsstring \<Rightarrow> jsstring \<Rightarrow> jsstring \<Rightarrow> int" where
  "containsCompare rt testName a b =
     (let aIsExactSubstring = str_includes (toLowerCase rt testName) (toLowerCase rt a);
          bIsExactSubstring = str_includes (toLowerCase rt testName) (toLowerCase rt b)
      in if aIsExactSubstring \<and> \<not> bIsExactSubstring then - 1
         else if \<not> aIsExactSubstring \<and> bIsExactSubstring then 1
         else if length a \<noteq> length b then int (length b) - int (length a)
         else localeCompare rt a b)"

text \<open>Strategy 2, lines 131-202: \<open>None\<close> when no key contains the test name or is
  contained in it.\<close>

definition containsStrategy ::
  "js_runtime \<Rightarrow> PatientDataRow \<Rightarrow> ReferenceMap \<Rightarrow> jsstring \<Rightarrow> jsstring option
     \<Rightarrow> ReferenceDataRow option option" where
  "containsStrategy rt patientRow referenceMap testName patientGender =
     (let containsMatches =
            filter (\<lambda>key. str_includes (toLowerCase rt testName) (toLowerCase rt key)
                          \<or> str_includes (toLowerCase rt key) (toLowerCase rt testName))
                   (map fst referenceMap)
      in if containsMatches \<noteq> [] then
           (let sorted = sortBy (containsCompare rt testName) containsMatches;
                bestMatch = hd sorted
            in case (if length containsMatches > 1
                     then numericOverride rt patientRow referenceMap patientGender sorted
                     else None) of
                 Some result \<Rightarrow> Some result
               | None \<Rightarrow> Some (selectFromKey rt referenceMap bestMatch patientGender))
         else None)"

text \<open>Strategy 3, lines 205-244, with its table of variations.\<close>

definition variations :: "(jsstring list \<times> jsstring list) list" where
  "variations =
     [([js ''wbc'', js ''white blood cell'', js ''white blood cells''],
       [js ''wbc'', js ''white blood cell'', js ''white blood cells'']),
      ([js ''albumin'', js ''alb''], [js ''albumin'', js ''alb'']),
      ([js ''hemoglobin'', js ''hgb'', js ''hb''], [js ''hemoglobin'', js ''hgb'', js ''hb'']),
      ([js ''platelet'', js ''platelets'', js ''plt''], [js ''platelet'', js ''platelets'', js ''plt'']),
      ([js ''glucose'', js ''glu''], [js ''glucose'', js ''glu'']),
      ([js ''alt'', js ''sgpt'', js ''alanine aminotransferase''],
       [js ''alt'', js ''sgpt'', js ''alanine aminotransferase'']),
      ([js ''ast'', js ''sgot'', js ''aspartate aminotransferase''],
       [js ''ast'', js ''sgot'', js ''aspartate aminotransferase'']),
      ([js ''alkaline phosphatase'', js ''alp''], [js ''alkaline phosphatase'', js ''alp''])]"

definition fuzzyStrategy ::
  "js_runtime \<Rightarrow> ReferenceMap \<Rightarrow> jsstring \<Rightarrow> jsstring option \<Rightarrow> ReferenceDataRow option" where
  "fuzzyStrategy rt referenceMap testName patientGender =
     (let fuzzyMatches =
            filter (\<lambda>key. list_ex (\<lambda>(test, ref).
                             list_ex (\<lambda>t. str_includes (toLowerCase rt testName) t) test
                             \<and> list_ex (\<lambda>r. str_includes (toLowerCase rt key) r) ref)
                           variations)
                   (map fst referenceMap)
      in if fuzzyMatches \<noteq> [] then
           selectFromKey rt referenceMap
             (hd (sortBy (\<lambda>a b. int (length b) - int (length a)) fuzzyMatches)) patientGender
         else None)"

subsection \<open>findBestReferenceMatch\<close>

definition findBestReferenceMatch ::
  "js_runtime \<Rightarrow> PatientDataRow \<Rightarrow> ReferenceMap \<Rightarrow> ReferenceDataRow option" where
  "findBestReferenceMatch rt patientRow referenceMap =
     (case map_option trim (LBTEST patientRow) of
        None \<Rightarrow> None
      | Some testName \<Rightarrow>
          if testName = [] then None
          else
            (let patientGender = normalized rt (Gender patientRow);
                 exactMatch = find (\<lambda>key. toLowerCase rt key = toLowerCase rt testName)
                                   (map fst referenceMap)
             in case (case exactMatch of
                        Some key \<Rightarrow> if key \<noteq> [] then Some key else None
                      | None \<Rightarrow> None) of
                  Some key \<Rightarrow> exactStrategy rt patientRow referenceMap testName patientGender key
                | None \<Rightarrow>
                    (case containsStrategy rt patientRow referenceMap testName patientGender of
                       Some result \<Rightarrow> result
                     | None \<Rightarrow> fuzzyStrategy rt referenceMap testName patientGender)))"

section \<open>The specification's wording\<close>

text \<open>
  The language of the pattern \<open>[+-]?\d*\.?\d+\<close>, written as the pattern reads: an optional
  sign, digits, an optional dot, at least one digit.
\<close>

definition isNumericToken :: "jsstring \<Rightarrow> bool" where
  "isNumericToken t =
     (\<exists>sg d1 dot d2. t = sg @ d1 @ dot @ d2 \<and> (sg = [] \<or> sg = [43] \<or> sg = [45])
        \<and> list_all isDigit d1 \<and> (dot = [] \<or> dot = [46]) \<and> d2 \<noteq> [] \<and> list_all isDigit d2)"

text \<open>\<open>extractNumeric\<close> as section 4.1 of the specification words it: the scan starts at the
  start of the trimmed string.\<close>

definition extractNumeric_spec :: "js_runtime \<Rightarrow> raw_value \<Rightarrow> jsnumber option" where
  "extractNumeric_spec rt v =
     (case v of
        JNum n \<Rightarrow> Some n
      | JStr s \<Rightarrow> (case numberToken (trim s) of
                     Some (t, r) \<Rightarrow> Some (parseFloat rt t)
                   | None \<Rightarrow> None))"

text \<open>\<open>normalizeTextual\<close> of section 4.1: trim, fold the case, and turn a text with \<open>+/-\<close>
  in it into \<open>negative\<close>.\<close>

definition normalizeTextual :: "js_runtime \<Rightarrow> raw_value \<Rightarrow> jsstring" where
  "normalizeTextual rt raw =
     (let t = toLowerCase rt (trim (valueToString rt raw))
      in if str_includes t (js ''+/-'') \<or> str_includes t (js ''negative +/-'')
         then js ''negative'' else t)"

text \<open>A key that names glucose and fasting, as line 112 tests it.\<close>

definition isGlucoseFasting :: "js_runtime \<Rightarrow> jsstring \<Rightarrow> bool" where
  "isGlucoseFasting rt key =
     (str_includes (toLowerCase rt key) (js ''glucose'')
      \<and> str_includes (toLowerCase rt key) (js ''fasting''))"

text \<open>
  The words of section 4.4 on the exact-key strategy. The override keys of a test name
  are the keys that contain it, case-folded, and are not equal to it. A range expression
  looks numeric when it contains a digit and contains neither \<open>negative\<close> nor \<open>positive\<close>.
  The candidates are the entries of the exact key followed by those of the override keys,
  key after key; the numeric candidates are those that look numeric.
\<close>

definition overrideKeys :: "js_runtime \<Rightarrow> ReferenceMap \<Rightarrow> jsstring \<Rightarrow> jsstring list" where
  "overrideKeys rt referenceMap testName =
     [key \<leftarrow> map fst referenceMap.
        str_includes (toLowerCase rt key) (toLowerCase rt testName)
        \<and> toLowerCase rt key \<noteq> toLowerCase rt testName]"

definition entriesOf :: "ReferenceMap \<Rightarrow> jsstring \<Rightarrow> ReferenceDataRow list" where
  "entriesOf referenceMap key =
     (case map_of referenceMap key of Some refs \<Rightarrow> refs | None \<Rightarrow> [])"

definition rangeExpression :: "ReferenceDataRow \<Rightarrow> jsstring" where
  "rangeExpression r = (case Normal_Range r of Some s \<Rightarrow> s | None \<Rightarrow> [])"

definition looksNumeric :: "js_runtime \<Rightarrow> ReferenceDataRow \<Rightarrow> bool" where
  "looksNumeric rt r =
     ((\<exists>c\<in>set (rangeExpression r). 48 \<le> c \<and> c \<le> 57)
      \<and> \<not> str_includes (toLowerCase rt (rangeExpression r)) (js ''negative'')
      \<and> \<not> str_includes (toLowerCase rt (rangeExpression r)) (js ''positive''))"

definition numericCandidates ::
  "js_runtime \<Rightarrow> ReferenceMap \<Rightarrow> jsstring \<Rightarrow> jsstring \<Rightarrow> ReferenceDataRow list" where
  "numericCandidates rt referenceMap exactKey testName =
     filter (looksNumeric rt)
       (entriesOf referenceMap exactKey
        @ concat (map (entriesOf referenceMap) (overrideKeys rt referenceMap testName)))"

text \<open>The gender specification of an entry, trimmed and case-folded.\<close>

definition genderSpec :: "js_runtime \<Rightarrow> ReferenceDataRow \<Rightarrow> jsstring option" where
  "genderSpec rt r = normalized rt (Gender_Notes r)"

text \<open>An entry is stored in the index when it stands in the entry list of some key.\<close>

definition storedIn :: "ReferenceMap \<Rightarrow> ReferenceDataRow \<Rightarrow> bool" where
  "storedIn referenceMap r =
     (\<exists>key refs. (key, refs) \<in> set referenceMap \<and> map_of referenceMap key = Some refs
        \<and> r \<in> set refs)"

section \<open>Example data\<close>

definition entry :: "string \<Rightarrow> string \<Rightarrow> string \<Rightarrow> ReferenceDataRow" where
  "entry p rng g =
     \<lparr> Parameter = Some (js p), Normal_Range = Some (js rng), Gender_Notes = Some (js g) \<rparr>"

definition observation :: "string \<Rightarrow> string \<Rightarrow> string \<Rightarrow> PatientDataRow" where
  "observation t v g =
     \<lparr> LBTEST = Some (js t), LBORRES = Some (JStr (js v)), Gender = Some (js g) \<rparr>"

text \<open>The index that the application builds from a sheet with a textual row for glucose
  and a numeric row for fasting glucose.\<close>

definition glucose_index :: ReferenceMap where
  "glucose_index =
     [(js ''glucose'', [entry ''Glucose'' ''Negative'' ''Both'']),
      (js ''glucose (fasting)'', [entry ''Glucose (Fasting)'' ''3.9 - 5.6'' ''Both''])]"

text \<open>An index with a key and a more specific key, both with numeric ranges.\<close>

definition wbc_index :: ReferenceMap where
  "wbc_index =
     [(js ''wbc'', [entry ''WBC'' ''4.0 - 11.0'' ''Both'']),
      (js ''wbc count'', [entry ''WBC Count'' ''4,000 - 11,000'' ''Both''])]"

text \<open>The same index with a key for random glucose, and then with a more specific key
  of that one.\<close>

definition glucose_random_index :: ReferenceMap where
  "glucose_random_index =
     glucose_index @ [(js ''glucose random'', [entry ''Glucose Random'' ''3.9 - 7.8'' ''Both''])]"

definition glucose_random_2h_index :: ReferenceMap where
  "glucose_random_2h_index =
     glucose_random_index
     @ [(js ''glucose random 2h'', [entry ''Glucose Random 2h'' ''3.9 - 11.1'' ''Both''])]"

text \<open>An index whose exact key and first override key have textual ranges and whose
  second override key has a numeric range.\<close>

definition protein_index :: ReferenceMap where
  "protein_index =
     [(js ''protein'', [entry ''Protein'' ''Negative'' ''Both'']),
      (js ''protein (urine)'', [entry ''Protein (Urine)'' ''Negative'' ''Both'']),
      (js ''protein (total)'', [entry ''Protein (Total)'' ''6.0 - 8.3'' ''Both''])]"

section \<open>Evaluation\<close>

lemmas char_defs = js_def isDigit_def isSign_def isWhiteSpace_def asciiLower_def

lemmas helper_defs = extractNumericValue_def numberToken_def parseFloat_def digitsValue_def
  parseRange_def cleanRange_def rangeMatch_def isWithinRange_def num_ge_def
  ascii_runtime_def Let_def

lemmas text_defs = matchesString_def normalizeTextual_def valueToString_def trim_def
  ascii_runtime_def

section \<open>The numeric token\<close>

lemma takeWhile_digits_append:
  "list_all isDigit ds \<Longrightarrow> takeWhile isDigit (ds @ r) = ds @ takeWhile isDigit r"
  by (simp add: list_all_iff takeWhile_append2)

lemma dropWhile_digits_append:
  "list_all isDigit ds \<Longrightarrow> dropWhile isDigit (ds @ r) = dropWhile isDigit r"
  by (simp add: list_all_iff dropWhile_append2)

lemma takeWhile_all_digits: "list_all isDigit (takeWhile isDigit s)"
  by (induction s) auto

lemma not_digit_dot: "\<not> isDigit 46"
  by (simp add: isDigit_def)

lemma isNumericTokenI:
  "sg = [] \<or> sg = [43] \<or> sg = [45] \<Longrightarrow> list_all isDigit d1 \<Longrightarrow> dot = [] \<or> dot = [46] \<Longrightarrow>
   d2 \<noteq> [] \<Longrightarrow> list_all isDigit d2 \<Longrightarrow> isNumericToken (sg @ d1 @ dot @ d2)"
  unfolding isNumericToken_def by blast

lemma numberToken_eq:
  assumes "(case s of c # cs \<Rightarrow> if isSign c then [c] else [] | [] \<Rightarrow> []) = sg"
    and "drop (length sg) s = s1"
    and "takeWhile isDigit s1 = d1" and "dropWhile isDigit s1 = r1"
    and "(case r1 of c # cs \<Rightarrow> if c = 46 then takeWhile isDigit cs else [] | [] \<Rightarrow> []) = d2"
  shows "numberToken s =
     (if d2 \<noteq> [] then Some (sg @ d1 @ [46] @ d2, dropWhile isDigit (tl r1))
      else if d1 \<noteq> [] then Some (sg @ d1, r1) else None)"
  unfolding numberToken_def Let_def assms by (rule refl)

text \<open>What the matcher captures is a word of the pattern and a prefix of the string.\<close>

lemma numberToken_sound:
  assumes "numberToken s = Some (t, r)"
  shows "s = t @ r \<and> isNumericToken t"
proof -
  define sg where "sg = (case s of c # cs \<Rightarrow> if isSign c then [c] else [] | [] \<Rightarrow> [])"
  define s1 where "s1 = drop (length sg) s"
  define d1 where "d1 = takeWhile isDigit s1"
  define r1 where "r1 = dropWhile isDigit s1"
  define d2 where "d2 = (case r1 of c # cs \<Rightarrow> if c = 46 then takeWhile isDigit cs else [] | [] \<Rightarrow> [])"
  have sg: "sg = [] \<or> sg = [43] \<or> sg = [45]" and s: "s = sg @ s1"
    by (auto simp: sg_def s1_def isSign_def split: list.splits)
  have s1: "s1 = d1 @ r1" by (simp add: d1_def r1_def)
  have dg1: "list_all isDigit d1" by (simp add: d1_def takeWhile_all_digits)
  have res: "numberToken s = (if d2 \<noteq> [] then Some (sg @ d1 @ [46] @ d2, dropWhile isDigit (tl r1))
         else if d1 \<noteq> [] then Some (sg @ d1, r1) else None)"
    by (simp add: numberToken_def Let_def sg_def s1_def d1_def r1_def d2_def)
  show ?thesis
  proof (cases "d2 = []")
    case True
    with res assms have d1: "d1 \<noteq> []" and t: "t = sg @ d1" and r: "r = r1"
      by (auto split: if_splits)
    have "isNumericToken (sg @ [] @ [] @ d1)"
      using sg dg1 d1 by (intro isNumericTokenI) auto
    with s s1 t r show ?thesis by simp
  next
    case False
    with res assms have t: "t = sg @ d1 @ [46] @ d2" and r: "r = dropWhile isDigit (tl r1)"
      by auto
    from False obtain cs where r1: "r1 = 46 # cs" and d2: "d2 = takeWhile isDigit cs"
      by (auto simp: d2_def split: list.splits if_splits)
    have "isNumericToken (sg @ d1 @ [46] @ d2)"
      using sg dg1 False d2 by (intro isNumericTokenI) (auto simp: takeWhile_all_digits)
    moreover have "s = t @ r" using s s1 r1 t r d2 by simp
    ultimately show ?thesis using t by simp
  qed
qed

lemma token_sign_part:
  assumes "sg = [] \<or> sg = [43] \<or> sg = [45]" "list_all isDigit d1" "dot = [] \<or> dot = [46]"
    "d2 \<noteq> []" "list_all isDigit d2"
  shows "(case sg @ d1 @ dot @ d2 @ r of c # cs \<Rightarrow> if isSign c then [c] else [] | [] \<Rightarrow> []) = sg"
proof -
  obtain c cs where b: "d1 @ dot @ d2 @ r = c # cs" and c: "isDigit c \<or> c = 46"
    using assms by (cases d1; cases d2) auto
  then have "\<not> isSign c" by (auto simp: isSign_def isDigit_def)
  with b assms(1) show ?thesis by (auto simp: isSign_def)
qed

text \<open>Every prefix of the string that is a word of the pattern is found, and the capture
  is at least as long.\<close>

lemma numberToken_complete:
  assumes "isNumericToken t"
  shows "\<exists>t0 r0. numberToken (t @ r) = Some (t0, r0) \<and> length t \<le> length t0"
proof -
  from assms obtain sg d1 dot d2 where t: "t = sg @ d1 @ dot @ d2"
    and sg: "sg = [] \<or> sg = [43] \<or> sg = [45]" and dg1: "list_all isDigit d1"
    and dot: "dot = [] \<or> dot = [46]" and d2: "d2 \<noteq> []" and dg2: "list_all isDigit d2"
    unfolding isNumericToken_def by blast
  have sgp: "(case t @ r of c # cs \<Rightarrow> if isSign c then [c] else [] | [] \<Rightarrow> []) = sg"
    using token_sign_part[OF sg dg1 dot d2 dg2, of r] t by simp
  have s1: "drop (length sg) (t @ r) = d1 @ dot @ d2 @ r" using t by simp
  from dot show ?thesis
  proof
    assume e: "dot = []"
    have tw: "takeWhile isDigit (d1 @ dot @ d2 @ r) = d1 @ d2 @ takeWhile isDigit r"
      using dg1 dg2 e by (simp add: takeWhile_digits_append)
    have "numberToken (t @ r) \<noteq> None \<and> length t \<le> length (fst (the (numberToken (t @ r))))"
      unfolding numberToken_eq[OF sgp s1 tw refl refl] using d2 t e by simp
    then show ?thesis by (cases "numberToken (t @ r)") auto
  next
    assume d: "dot = [46]"
    have tw: "takeWhile isDigit (d1 @ dot @ d2 @ r) = d1"
      and dw: "dropWhile isDigit (d1 @ dot @ d2 @ r) = 46 # d2 @ r"
      using dg1 d by (simp_all add: takeWhile_digits_append dropWhile_digits_append not_digit_dot)
    have d2': "(case 46 # d2 @ r of c # cs \<Rightarrow> if c = 46 then takeWhile isDigit cs else [] | [] \<Rightarrow> [])
        = d2 @ takeWhile isDigit r"
      using dg2 by (simp add: takeWhile_digits_append)
    have "numberToken (t @ r) \<noteq> None \<and> length t \<le> length (fst (the (numberToken (t @ r))))"
      unfolding numberToken_eq[OF sgp s1 tw dw d2'] using d2 t d by simp
    then show ?thesis by (cases "numberToken (t @ r)") auto
  qed
qed



text \<open>\<open>parseFloat\<close> of a word of the pattern is a number, never NaN.\<close>

lemma parseFloat_token:
  assumes "isNumericToken t"
  shows "parseFloat rt t \<noteq> NaN"
proof -
  from assms obtain sg d1 dot d2 where t: "t = sg @ d1 @ dot @ d2"
    and sg: "sg = [] \<or> sg = [43] \<or> sg = [45]" and dg1: "list_all isDigit d1"
    and dot: "dot = [] \<or> dot = [46]" and d2: "d2 \<noteq> []" and dg2: "list_all isDigit d2"
    unfolding isNumericToken_def by blast
  obtain c cs where b: "d1 @ dot @ d2 = c # cs" and c: "isDigit c \<or> c = 46"
    using dg1 dg2 dot d2 by (cases d1; cases d2) auto
  have nws: "\<not> isWhiteSpace c" "\<not> isSign c"
    using c by (auto simp: isWhiteSpace_def isDigit_def isSign_def)
  have ws: "dropWhile isWhiteSpace t = t"
    using sg t b nws by (auto simp: isWhiteSpace_def)
  have s1: "(case t of c # cs \<Rightarrow> if isSign c then cs else t | [] \<Rightarrow> t) = d1 @ dot @ d2"
    using sg t b nws by (auto simp: isSign_def)
  from dot show ?thesis
  proof
    assume e: "dot = []"
    then have tw: "takeWhile isDigit (d1 @ dot @ d2) = d1 @ d2"
      using dg1 dg2 takeWhile_digits_append[of "d1 @ d2" "[]"] by simp
    show ?thesis using d2 by (simp add: parseFloat_def Let_def ws s1 tw)
  next
    assume d: "dot = [46]"
    then have tw: "takeWhile isDigit (d1 @ dot @ d2) = d1"
      and dw: "dropWhile isDigit (d1 @ dot @ d2) = 46 # d2"
      using dg1 by (simp_all add: takeWhile_digits_append dropWhile_digits_append not_digit_dot)
    have tw2: "takeWhile isDigit d2 = d2" using dg2 takeWhile_digits_append[of d2 "[]"] by simp
    show ?thesis using d2 by (simp add: parseFloat_def Let_def ws s1 tw dw tw2)
  qed
qed

section \<open>The pattern of parseRange\<close>




lemma rangeMatch_sound:
  assumes "rangeMatch s = Some (t1, t2)"
  shows "isNumericToken t1 \<and> isNumericToken t2"
proof -
  from assms obtain r1 where n1: "numberToken s = Some (t1, r1)"
    by (auto simp: rangeMatch_def split: option.splits list.splits if_splits)
  from assms n1 obtain r2 r3 where n2: "numberToken r2 = Some (t2, r3)"
    by (auto simp: rangeMatch_def split: option.splits list.splits if_splits)
  from numberToken_sound[OF n1] numberToken_sound[OF n2] show ?thesis by simp
qed

lemma parseRange_of_match:
  assumes "rangeMatch (cleanRange rng) = Some (t1, t2)"
  shows "parseRange rt rng = Some (parseFloat rt t1, parseFloat rt t2)"
  using rangeMatch_sound[OF assms] assms
  by (simp add: parseRange_def Let_def parseFloat_token)

lemma parseRange_not_NaN:
  "parseRange rt rng = Some (mn, mx) \<Longrightarrow> mn \<noteq> NaN \<and> mx \<noteq> NaN"
  by (auto simp: parseRange_def Let_def split: option.splits if_splits)



lemma parseRange_inverted:
  "parseRange ascii_runtime (js ''17.2-13.8'') = Some (Num (172 / 10), Num (138 / 10))"
  by (simp add: helper_defs char_defs)

lemma parseRange_negative:
  "parseRange ascii_runtime (js ''-5 - -1.5'') = Some (Num (- 5), Num (- (15 / 10)))"
  by (simp add: helper_defs char_defs)

lemma extract_wbc:
  "extractNumericValue ascii_runtime (JStr (js ''8187.7 cells/mm'' @ [179]))
   = Some (Num (81877 / 10))"
  by (simp add: helper_defs char_defs)

section \<open>Claims about comparisonHelpers.ts\<close>

text \<open>
  C1, as the specification states it: whenever an interval with the endpoints min and max
  is parsed, the value min and the value max are matched. The source takes min and max in
  the order of the text (C7): for \<open>17.2-13.8\<close> the endpoints are 17.2 and 13.8, and neither
  the value 17.2 nor the value 13.8 is within the range, as a number or as a string.
\<close>

theorem C1_boundary_counterexample:
  "parseRange ascii_runtime (js ''17.2-13.8'') = Some (Num (172 / 10), Num (138 / 10))
   \<and> \<not> isWithinRange ascii_runtime (JNum (Num (172 / 10))) (js ''17.2-13.8'')
   \<and> \<not> isWithinRange ascii_runtime (JNum (Num (138 / 10))) (js ''17.2-13.8'')
   \<and> \<not> isWithinRange ascii_runtime (JStr (js ''17.2'')) (js ''17.2-13.8'')
   \<and> \<not> isWithinRange ascii_runtime (JStr (js ''13.8'')) (js ''17.2-13.8'')"
  by (simp add: helper_defs char_defs)

text \<open>
  C1, amended. For every range text that parses to the endpoints \<open>mn\<close> and \<open>mx\<close> and
  every value from which the number \<open>x\<close> is extracted, \<open>isWithinRange\<close> is true if and
  only if \<open>mn \<le> x\<close> and \<open>x \<le> mx\<close> in the order of the rationals; it is false for a value
  that is NaN. The boundary values \<open>mn\<close> and \<open>mx\<close> themselves are matched if and only if
  \<open>mn \<le> mx\<close>. With the runtime of the examples: 8187.7 cells is within
  \<open>4,000 - 11,000\<close>, and so are 4000 and 11000, while 3999.9 and 11000.1 are not; the
  value \<open>-3\<close> is within \<open>-5 - -1.5\<close>, while \<open>-1\<close> and \<open>3\<close> are not.
\<close>

theorem C1_isWithinRange_inclusive:
  assumes "parseRange rt rng = Some (Num mn, Num mx)"
    and "extractNumericValue rt v = Some (Num x)"
  shows "(isWithinRange rt v rng \<longleftrightarrow> mn \<le> x \<and> x \<le> mx)
       \<and> (isWithinRange rt (JNum (Num mn)) rng \<longleftrightarrow> mn \<le> mx)
       \<and> (isWithinRange rt (JNum (Num mx)) rng \<longleftrightarrow> mn \<le> mx)
       \<and> \<not> isWithinRange rt (JNum NaN) rng
       \<and> isWithinRange ascii_runtime (JStr (js ''8187.7 cells/mm'' @ [179])) (js ''4,000 - 11,000'')
       \<and> isWithinRange ascii_runtime (JStr (js ''4000'')) (js ''4,000 - 11,000'')
       \<and> isWithinRange ascii_runtime (JStr (js ''11000'')) (js ''4,000 - 11,000'')
       \<and> \<not> isWithinRange ascii_runtime (JStr (js ''3999.9'')) (js ''4,000 - 11,000'')
       \<and> \<not> isWithinRange ascii_runtime (JStr (js ''11000.1'')) (js ''4,000 - 11,000'')
       \<and> isWithinRange ascii_runtime (JStr (js ''-3 mV'')) (js ''-5 - -1.5'')
       \<and> \<not> isWithinRange ascii_runtime (JStr (js ''-1'')) (js ''-5 - -1.5'')
       \<and> \<not> isWithinRange ascii_runtime (JStr (js ''3'')) (js ''-5 - -1.5'')"
proof -
  have iff: "isWithinRange rt v rng \<longleftrightarrow> mn \<le> x \<and> x \<le> mx"
    using assms by (auto simp: isWithinRange_def num_ge_def)
  have lo: "isWithinRange rt (JNum (Num mn)) rng \<longleftrightarrow> mn \<le> mx"
    and hi: "isWithinRange rt (JNum (Num mx)) rng \<longleftrightarrow> mn \<le> mx"
    and nan: "\<not> isWithinRange rt (JNum NaN) rng"
    using assms(1) by (simp_all add: isWithinRange_def num_ge_def extractNumericValue_def)
  have within:
    "isWithinRange ascii_runtime (JStr (js ''8187.7 cells/mm'' @ [179])) (js ''4,000 - 11,000'')"
    "isWithinRange ascii_runtime (JStr (js ''4000'')) (js ''4,000 - 11,000'')"
    "isWithinRange ascii_runtime (JStr (js ''11000'')) (js ''4,000 - 11,000'')"
    "isWithinRange ascii_runtime (JStr (js ''-3 mV'')) (js ''-5 - -1.5'')"
    by (simp_all add: helper_defs char_defs)
  have outside:
    "\<not> isWithinRange ascii_runtime (JStr (js ''3999.9'')) (js ''4,000 - 11,000'')"
    "\<not> isWithinRange ascii_runtime (JStr (js ''11000.1'')) (js ''4,000 - 11,000'')"
    "\<not> isWithinRange ascii_runtime (JStr (js ''-1'')) (js ''-5 - -1.5'')"
    "\<not> isWithinRange ascii_runtime (JStr (js ''3'')) (js ''-5 - -1.5'')"
    by (simp_all add: helper_defs char_defs)
  from iff lo hi nan within outside show ?thesis by simp
qed

theorem C1_isWithinRange_inclusive_witness:
  "parseRange ascii_runtime (js ''-5 - -1.5'') = Some (Num (- 5), Num (- (15 / 10)))
   \<and> extractNumericValue ascii_runtime (JStr (js ''-1.5 mV'')) = Some (Num (- (15 / 10)))
   \<and> isWithinRange ascii_runtime (JStr (js ''-1.5 mV'')) (js ''-5 - -1.5'')
   \<and> isWithinRange ascii_runtime (JNum (Num (- 5))) (js ''-5 - -1.5'')
   \<and> extractNumericValue ascii_runtime (JStr (js ''-1.49'')) = Some (Num (- (149 / 100)))
   \<and> \<not> isWithinRange ascii_runtime (JStr (js ''-1.49'')) (js ''-5 - -1.5'')
   \<and> extractNumericValue ascii_runtime (JStr (js ''-5.01'')) = Some (Num (- (501 / 100)))
   \<and> \<not> isWithinRange ascii_runtime (JStr (js ''-5.01'')) (js ''-5 - -1.5'')
   \<and> \<not> isWithinRange ascii_runtime (JNum (Num (172 / 10))) (js ''17.2-13.8'')"
proof -
  have a: "extractNumericValue ascii_runtime (JStr (js ''-1.5 mV'')) = Some (Num (- (15 / 10)))"
    and b: "extractNumericValue ascii_runtime (JStr (js ''-1.49'')) = Some (Num (- (149 / 100)))"
    and c: "extractNumericValue ascii_runtime (JStr (js ''-5.01'')) = Some (Num (- (501 / 100)))"
    by (simp_all add: helper_defs char_defs)
  have d: "extractNumericValue ascii_runtime (JNum (Num 0)) = Some (Num 0)"
    by (simp add: extractNumericValue_def)
  from C1_isWithinRange_inclusive [OF parseRange_negative a]
    C1_isWithinRange_inclusive [OF parseRange_negative b]
    C1_isWithinRange_inclusive [OF parseRange_negative c]
    C1_isWithinRange_inclusive [OF parseRange_inverted d]
    parseRange_negative a b c
  show ?thesis by simp
qed

text \<open>
  C5, as the specification states it: the scan starts at the start of the trimmed string.
  The source does not trim: a value with a space in front has no leading token.
\<close>

theorem C5_trimmed_scan_counterexample:
  "extractNumeric_spec ascii_runtime (JStr (js '' 5'')) = Some (Num 5)
   \<and> extractNumericValue ascii_runtime (JStr (js '' 5'')) = None"
  by (simp add: extractNumeric_spec_def trim_def helper_defs char_defs)

text \<open>
  C5, amended. A number is returned unchanged. On a string the scan starts at the first
  character of the string as it is, without trimming: the result is null exactly when no
  prefix of the string is a word of \<open>[+-]?\d*\.?\d+\<close>, and otherwise it is \<open>parseFloat\<close> of
  the longest such prefix, a number. So \<open>8187.7 cells/mm\<close> followed by a superscript three
  gives 8187.7, and \<open>cells 8187.7\<close> gives null.
\<close>

theorem C5_extractNumericValue_leading_token:
  "extractNumericValue rt (JNum n) = Some n
   \<and> (extractNumericValue rt (JStr s) = None \<longleftrightarrow> \<not> (\<exists>t r. s = t @ r \<and> isNumericToken t))
   \<and> (\<forall>x. extractNumericValue rt (JStr s) = Some x \<longrightarrow>
        (\<exists>t r. s = t @ r \<and> isNumericToken t \<and> x = parseFloat rt t \<and> x \<noteq> NaN
           \<and> (\<forall>t' r'. s = t' @ r' \<and> isNumericToken t' \<longrightarrow> length t' \<le> length t)))
   \<and> extractNumericValue ascii_runtime (JStr (js ''8187.7 cells/mm'' @ [179]))
        = Some (Num (81877 / 10))
   \<and> extractNumericValue ascii_runtime (JStr (js ''cells 8187.7'')) = None"
proof -
  have none: "extractNumericValue rt (JStr s) = None \<longleftrightarrow> \<not> (\<exists>t r. s = t @ r \<and> isNumericToken t)"
  proof
    assume "extractNumericValue rt (JStr s) = None"
    then have n: "numberToken s = None"
      by (auto simp: extractNumericValue_def split: option.splits prod.splits)
    show "\<not> (\<exists>t r. s = t @ r \<and> isNumericToken t)"
    proof
      assume "\<exists>t r. s = t @ r \<and> isNumericToken t"
      then obtain t r where "s = t @ r" "isNumericToken t" by blast
      with numberToken_complete[of t r] n show False by auto
    qed
  next
    assume h: "\<not> (\<exists>t r. s = t @ r \<and> isNumericToken t)"
    have "numberToken s = None"
    proof (cases "numberToken s")
      case (Some p)
      then obtain t r where "numberToken s = Some (t, r)" by (cases p) auto
      from numberToken_sound[OF this] h show ?thesis by blast
    qed simp
    then show "extractNumericValue rt (JStr s) = None"
      by (simp add: extractNumericValue_def)
  qed
  have some: "\<exists>t r. s = t @ r \<and> isNumericToken t \<and> x = parseFloat rt t \<and> x \<noteq> NaN
           \<and> (\<forall>t' r'. s = t' @ r' \<and> isNumericToken t' \<longrightarrow> length t' \<le> length t)"
    if "extractNumericValue rt (JStr s) = Some x" for x
  proof -
    from that obtain t r where n: "numberToken s = Some (t, r)" and x: "x = parseFloat rt t"
      by (auto simp: extractNumericValue_def split: option.splits)
    from numberToken_sound[OF n] have s: "s = t @ r" and tok: "isNumericToken t" by simp_all
    have "length t' \<le> length t" if "s = t' @ r'" "isNumericToken t'" for t' r'
      using numberToken_complete[OF that(2), of r'] that(1) n by auto
    with s tok x parseFloat_token[OF tok, of rt] show ?thesis by blast
  qed
  have "extractNumericValue ascii_runtime (JStr (js ''cells 8187.7'')) = None"
    by (simp add: helper_defs char_defs)
  with none some extract_wbc show ?thesis
    by (simp add: extractNumericValue_def)
qed

theorem C5_extractNumericValue_leading_token_witness:
  "extractNumericValue ascii_runtime (JStr (js ''12.5 mg'')) = Some (Num (125 / 10))
   \<and> (\<exists>t r. js ''12.5 mg'' = t @ r \<and> isNumericToken t
         \<and> parseFloat ascii_runtime t = Num (125 / 10))"
proof -
  have e: "extractNumericValue ascii_runtime (JStr (js ''12.5 mg'')) = Some (Num (125 / 10))"
    by (simp add: helper_defs char_defs)
  from C5_extractNumericValue_leading_token [of ascii_runtime "Num 0" "js ''12.5 mg''"] e
  have "\<exists>t r. js ''12.5 mg'' = t @ r \<and> isNumericToken t
      \<and> Num (125 / 10) = parseFloat ascii_runtime t"
    by blast
  with e show ?thesis by metis
qed




text \<open>
  C7. Whenever the cleaned range text matches the pattern number, hyphen, number, the
  result has \<open>min\<close> from the first capture and \<open>max\<close> from the second, whatever their order:
  nothing is swapped and nothing rejected. So \<open>17.2-13.8\<close> gives min 17.2 and max 13.8.
\<close>

theorem C7_parseRange_keeps_order:
  "(\<forall>t1 t2. rangeMatch (cleanRange rng) = Some (t1, t2) \<longrightarrow>
       parseRange rt rng = Some (parseFloat rt t1, parseFloat rt t2))
   \<and> parseRange ascii_runtime (js ''17.2-13.8'') = Some (Num (172 / 10), Num (138 / 10))"
proof -
  have "parseRange ascii_runtime (js ''17.2-13.8'') = Some (Num (172 / 10), Num (138 / 10))"
    by (simp add: helper_defs char_defs)
  then show ?thesis using parseRange_of_match by blast
qed

theorem C7_parseRange_keeps_order_witness:
  "rangeMatch (cleanRange (js ''9 - 2.5'')) = Some (js ''9'', js ''2.5'')
   \<and> parseRange ascii_runtime (js ''9 - 2.5'') = Some (Num 9, Num (25 / 10))"
proof -
  have m: "rangeMatch (cleanRange (js ''9 - 2.5'')) = Some (js ''9'', js ''2.5'')"
    by (simp add: helper_defs char_defs)
  have p: "parseFloat ascii_runtime (js ''9'') = Num 9"
    "parseFloat ascii_runtime (js ''2.5'') = Num (25 / 10)"
    by (simp_all add: helper_defs char_defs)
  from C7_parseRange_keeps_order [of "js ''9 - 2.5''" ascii_runtime] m p show ?thesis
    by simp
qed

text \<open>
  C8, as the specification states it: both the value and the reference text are
  normalized, and the match is the equality of the two normal forms. The source
  normalizes the value only: the value \<open>Negative\<close> does not match the reference text
  \<open>Negative +/-\<close>, though the two normal forms are equal.
\<close>

theorem C8_both_normalized_counterexample:
  "\<not> matchesString ascii_runtime (JStr (js ''Negative'')) (js ''Negative +/-'')
   \<and> normalizeTextual ascii_runtime (JStr (js ''Negative'')) = js ''negative''
   \<and> normalizeTextual ascii_runtime (JStr (js ''Negative +/-'')) = js ''negative''"
  by (simp add: text_defs char_defs)

text \<open>
  C8, amended. \<open>matchesString\<close> normalizes the value of the observation (trim, fold the
  case, and a text with \<open>+/-\<close> in it becomes \<open>negative\<close>); the reference text is trimmed and
  case-folded only. The match holds if and only if the two are equal. With the runtime of
  the examples, the value \<open>+/-\<close> matches the reference range \<open>Negative\<close>.
\<close>

theorem C8_matchesString_normalizes_value:
  "(matchesString rt v expected \<longleftrightarrow>
      normalizeTextual rt v = toLowerCase rt (trim expected))
   \<and> matchesString ascii_runtime (JStr (js ''+/-'')) (js ''Negative'')"
proof -
  have "matchesString ascii_runtime (JStr (js ''+/-'')) (js ''Negative'')"
    by (simp add: text_defs char_defs)
  moreover have "matchesString rt v expected \<longleftrightarrow>
      normalizeTextual rt v = toLowerCase rt (trim expected)"
    by (auto simp: matchesString_def normalizeTextual_def Let_def)
  ultimately show ?thesis by simp
qed

theorem C8_matchesString_normalizes_value_witness:
  "matchesString ascii_runtime (JStr (js '' Trace +/- '')) (js ''NEGATIVE '')
   \<and> normalizeTextual ascii_runtime (JStr (js '' Trace +/- '')) = js ''negative''"
proof -
  have n: "normalizeTextual ascii_runtime (JStr (js '' Trace +/- '')) = js ''negative''"
    and e: "toLowerCase ascii_runtime (trim (js ''NEGATIVE '')) = js ''negative''"
    by (simp_all add: text_defs char_defs)
  from C8_matchesString_normalizes_value [of ascii_runtime "JStr (js '' Trace +/- '')" "js ''NEGATIVE ''"]
    n e show ?thesis by simp
qed

section \<open>Lists, keys and entries\<close>

lemmas resolver_defs = findBestReferenceMatch_def exactStrategy_def exactOverride_def
  betterAlternatives_def glucoseOverride_def numericOverride_def finalGlucoseCheck_def
  containsStrategy_def fuzzyStrategy_def selectFromKey_def selectBestGenderMatch_def
  isGlucose_def isNumericRange_def refOptions_def normalRange_def patientValue_def
  normalized_def sortBy_def containsCompare_def hasDigit_def valueToString_def

lemmas example_defs = entry_def observation_def glucose_index_def wbc_index_def
  ascii_runtime_def trim_def

text \<open>\<open>find\<close> returns the first element with the property.\<close>

lemma find_first_iff:
  "find P xs = Some r \<longleftrightarrow> (\<exists>pre post. xs = pre @ r # post \<and> P r \<and> (\<forall>x\<in>set pre. \<not> P x))"
proof (induction xs)
  case Nil
  then show ?case by simp
next
  case (Cons a xs)
  show ?case
  proof (cases "P a")
    case True
    have "(\<exists>pre post. a # xs = pre @ r # post \<and> P r \<and> (\<forall>x\<in>set pre. \<not> P x)) \<longleftrightarrow> r = a"
    proof
      assume "\<exists>pre post. a # xs = pre @ r # post \<and> P r \<and> (\<forall>x\<in>set pre. \<not> P x)"
      then obtain pre post where e: "a # xs = pre @ r # post" and n: "\<forall>x\<in>set pre. \<not> P x"
        by blast
      with True show "r = a" by (cases pre) auto
    next
      assume "r = a"
      with True have "a # xs = [] @ r # xs \<and> P r \<and> (\<forall>x\<in>set []. \<not> P x)" by simp
      then show "\<exists>pre post. a # xs = pre @ r # post \<and> P r \<and> (\<forall>x\<in>set pre. \<not> P x)"
        by blast
    qed
    with True show ?thesis by auto
  next
    case False
    have "(\<exists>pre post. a # xs = pre @ r # post \<and> P r \<and> (\<forall>x\<in>set pre. \<not> P x))
        \<longleftrightarrow> (\<exists>pre post. xs = pre @ r # post \<and> P r \<and> (\<forall>x\<in>set pre. \<not> P x))"
    proof
      assume "\<exists>pre post. a # xs = pre @ r # post \<and> P r \<and> (\<forall>x\<in>set pre. \<not> P x)"
      then obtain pre post where e: "a # xs = pre @ r # post" and r: "P r"
        and n: "\<forall>x\<in>set pre. \<not> P x" by blast
      from e r False obtain pre' where "pre = a # pre'" by (cases pre) auto
      with e n r show "\<exists>pre post. xs = pre @ r # post \<and> P r \<and> (\<forall>x\<in>set pre. \<not> P x)"
        by auto
    next
      assume "\<exists>pre post. xs = pre @ r # post \<and> P r \<and> (\<forall>x\<in>set pre. \<not> P x)"
      then obtain pre post where "xs = pre @ r # post" "P r" "\<forall>x\<in>set pre. \<not> P x" by blast
      with False have "a # xs = (a # pre) @ r # post \<and> P r \<and> (\<forall>x\<in>set (a # pre). \<not> P x)"
        by simp
      then show "\<exists>pre post. a # xs = pre @ r # post \<and> P r \<and> (\<forall>x\<in>set pre. \<not> P x)"
        by blast
    qed
    with False Cons.IH show ?thesis by simp
  qed
qed

lemma find_mem: "find P xs = Some r \<Longrightarrow> r \<in> set xs \<and> P r"
  by (induction xs) (auto split: if_splits)

lemma find_filter: "find P (filter Q xs) = find (\<lambda>x. Q x \<and> P x) xs"
  by (induction xs) auto

lemma find_exists: "\<exists>x\<in>set xs. P x \<Longrightarrow> \<exists>r. find P xs = Some r"
  by (cases "find P xs") (auto simp: find_None_iff)

lemma map_of_key: "key \<in> set (map fst m) \<Longrightarrow> \<exists>refs. map_of m key = Some refs"
  by (cases "map_of m key") (auto simp: map_of_eq_None_iff)

text \<open>Sorting rearranges the list: the element read at index 0 of a sorted non-empty
  list of matches is one of the matches.\<close>

lemma set_insertBy: "set (insertBy cmp x ys) = insert x (set ys)"
  by (induction ys) auto

lemma set_sortBy: "set (sortBy cmp xs) = set xs"
  by (induction xs) (auto simp: sortBy_def set_insertBy)

lemma length_insertBy: "length (insertBy cmp x ys) = Suc (length ys)"
  by (induction ys) auto

lemma length_sortBy: "length (sortBy cmp xs) = length xs"
  by (induction xs) (auto simp: sortBy_def length_insertBy)

lemma hd_sortBy_mem: "xs \<noteq> [] \<Longrightarrow> hd (sortBy cmp xs) \<in> set xs"
  using set_sortBy[of cmp xs] length_sortBy[of cmp xs] hd_in_set[of "sortBy cmp xs"]
  by (cases "sortBy cmp xs") auto

section \<open>selectBestGenderMatch\<close>

lemma select_mem: "selectBestGenderMatch rt refs pg = Some r \<Longrightarrow> r \<in> set refs"
  by (auto simp: selectBestGenderMatch_def split: if_splits option.splits dest: find_mem)

lemma select_nonempty: "refs \<noteq> [] \<Longrightarrow> \<exists>r\<in>set refs. selectBestGenderMatch rt refs pg = Some r"
  by (cases "selectBestGenderMatch rt refs pg")
     (auto simp: selectBestGenderMatch_def select_mem split: option.splits)

lemma storedInI: "map_of m key = Some refs \<Longrightarrow> r \<in> set refs \<Longrightarrow> storedIn m r"
  unfolding storedIn_def by (blast dest: map_of_SomeD)

lemma selectFromKey_stored:
  "selectFromKey rt m key pg = Some r \<Longrightarrow> storedIn m r"
  unfolding selectFromKey_def
  by (auto split: option.splits dest: select_mem intro: storedInI)

lemma refOptions_stored:
  assumes "r \<in> set (refOptions m keys)"
  shows "storedIn m r"
proof -
  from assms obtain key where
    "r \<in> set (case map_of m key of Some refs \<Rightarrow> refs | None \<Rightarrow> [])"
    by (auto simp: refOptions_def)
  then show ?thesis
    by (cases "map_of m key") (auto intro: storedInI)
qed

lemma numericOverride_stored:
  "numericOverride rt row m pg keys = Some (Some r) \<Longrightarrow> storedIn m r"
  unfolding numericOverride_def Let_def
  by (auto split: if_splits option.splits dest!: select_mem intro: refOptions_stored)

lemma glucoseOverride_stored:
  "glucoseOverride rt m tn pg alts = Some (Some r) \<Longrightarrow> storedIn m r"
  unfolding glucoseOverride_def
  by (auto split: if_splits option.splits dest: select_mem intro: storedInI)

lemma finalGlucoseCheck_stored:
  "finalGlucoseCheck rt row m tn pg ek = Some (Some r) \<Longrightarrow> storedIn m r"
  unfolding finalGlucoseCheck_def
  by (auto split: if_splits option.splits dest: select_mem intro: storedInI)

lemma exactStrategy_stored:
  assumes "exactStrategy rt row m tn pg ek = Some r"
  shows "storedIn m r"
proof (cases "exactOverride rt row m tn pg ek")
  case None
  with assms show ?thesis
    by (auto simp: exactStrategy_def split: option.splits
        intro: finalGlucoseCheck_stored selectFromKey_stored)
next
  case (Some res)
  with assms have res: "exactOverride rt row m tn pg ek = Some (Some r)"
    by (simp add: exactStrategy_def)
  then show ?thesis
    unfolding exactOverride_def Let_def
    by (auto split: if_splits option.splits
        intro: glucoseOverride_stored numericOverride_stored)
qed

lemma containsStrategy_stored:
  "containsStrategy rt row m tn pg = Some (Some r) \<Longrightarrow> storedIn m r"
  unfolding containsStrategy_def Let_def
  by (auto split: if_splits option.splits
      intro: numericOverride_stored selectFromKey_stored)

lemma fuzzyStrategy_stored:
  "fuzzyStrategy rt m tn pg = Some r \<Longrightarrow> storedIn m r"
  unfolding fuzzyStrategy_def Let_def
  by (auto split: if_splits intro: selectFromKey_stored)

section \<open>Claims about referenceMatcher.ts\<close>

text \<open>
  C4. \<open>selectBestGenderMatch\<close> returns null for the empty list and an entry of the list
  otherwise: the first entry whose gender specification, trimmed and case-folded, equals
  the normalized gender of the observation; when there is none, the first entry whose
  gender specification normalizes to \<open>both\<close>; when there is none either, the first entry
  of the list. For the entries Male and Both and the gender Female it is the entry Both.
\<close>

theorem C4_selectBestGenderMatch_priority:
  "selectBestGenderMatch rt [] pg = None
   \<and> (refs \<noteq> [] \<longrightarrow> (\<exists>r\<in>set refs. selectBestGenderMatch rt refs pg = Some r))
   \<and> (\<forall>pre r post. refs = pre @ r # post \<and> genderSpec rt r = pg
          \<and> (\<forall>x\<in>set pre. genderSpec rt x \<noteq> pg)
        \<longrightarrow> selectBestGenderMatch rt refs pg = Some r)
   \<and> (\<forall>pre r post. (\<forall>x\<in>set refs. genderSpec rt x \<noteq> pg)
          \<and> refs = pre @ r # post \<and> genderSpec rt r = Some (js ''both'')
          \<and> (\<forall>x\<in>set pre. genderSpec rt x \<noteq> Some (js ''both''))
        \<longrightarrow> selectBestGenderMatch rt refs pg = Some r)
   \<and> (\<forall>r rest. refs = r # rest
          \<and> (\<forall>x\<in>set refs. genderSpec rt x \<noteq> pg \<and> genderSpec rt x \<noteq> Some (js ''both''))
        \<longrightarrow> selectBestGenderMatch rt refs pg = Some r)
   \<and> selectBestGenderMatch ascii_runtime
        [entry ''Hemoglobin'' ''13.8-17.2'' ''Male'', entry ''Hemoglobin'' ''12.0-16.0'' ''Both'']
        (normalized ascii_runtime (Some (js ''Female'')))
      = Some (entry ''Hemoglobin'' ''12.0-16.0'' ''Both'')"
proof -
  let ?P = "\<lambda>r. normalized rt (Gender_Notes r) = pg"
  let ?B = "\<lambda>r. normalized rt (Gender_Notes r) = Some (js ''both'')"
  have empty: "selectBestGenderMatch rt [] pg = None"
    by (simp add: selectBestGenderMatch_def)
  have exact: "selectBestGenderMatch rt refs pg = Some r"
    if "refs = pre @ r # post" "genderSpec rt r = pg" "\<forall>x\<in>set pre. genderSpec rt x \<noteq> pg"
    for pre r post
  proof -
    from that have "find ?P refs = Some r"
      unfolding find_first_iff genderSpec_def by blast
    with that(1) show ?thesis by (simp add: selectBestGenderMatch_def)
  qed
  have both: "selectBestGenderMatch rt refs pg = Some r"
    if "\<forall>x\<in>set refs. genderSpec rt x \<noteq> pg" "refs = pre @ r # post"
      "genderSpec rt r = Some (js ''both'')" "\<forall>x\<in>set pre. genderSpec rt x \<noteq> Some (js ''both'')"
    for pre r post
  proof -
    from that(1) have "find ?P refs = None"
      by (simp add: find_None_iff genderSpec_def)
    moreover from that have "find ?B refs = Some r"
      unfolding find_first_iff genderSpec_def by blast
    ultimately show ?thesis using that(2) by (simp add: selectBestGenderMatch_def)
  qed
  have fallback: "selectBestGenderMatch rt refs pg = Some r"
    if "refs = r # rest"
      "\<forall>x\<in>set refs. genderSpec rt x \<noteq> pg \<and> genderSpec rt x \<noteq> Some (js ''both'')"
    for r rest
  proof -
    from that(2) have "find ?P refs = None" "find ?B refs = None"
      by (simp_all add: find_None_iff genderSpec_def)
    with that(1) show ?thesis by (simp add: selectBestGenderMatch_def)
  qed
  have example: "selectBestGenderMatch ascii_runtime
        [entry ''Hemoglobin'' ''13.8-17.2'' ''Male'', entry ''Hemoglobin'' ''12.0-16.0'' ''Both'']
        (normalized ascii_runtime (Some (js ''Female'')))
      = Some (entry ''Hemoglobin'' ''12.0-16.0'' ''Both'')"
    by (simp add: resolver_defs example_defs char_defs)
  from empty select_nonempty exact both fallback example show ?thesis
    by blast
qed

theorem C4_selectBestGenderMatch_priority_witness:
  "selectBestGenderMatch ascii_runtime
     [entry ''ALT'' ''7-56'' ''Male'', entry ''ALT'' ''7-45'' '' both '', entry ''ALT'' ''7-40'' ''Both'']
     (Some (js ''female''))
   = Some (entry ''ALT'' ''7-45'' '' both '')"
proof -
  let ?refs = "[entry ''ALT'' ''7-56'' ''Male'', entry ''ALT'' ''7-45'' '' both '',
                entry ''ALT'' ''7-40'' ''Both'']"
  have g: "genderSpec ascii_runtime (entry ''ALT'' ''7-56'' ''Male'') = Some (js ''male'')"
    "genderSpec ascii_runtime (entry ''ALT'' ''7-45'' '' both '') = Some (js ''both'')"
    "genderSpec ascii_runtime (entry ''ALT'' ''7-40'' ''Both'') = Some (js ''both'')"
    by (simp_all add: genderSpec_def normalized_def example_defs char_defs)
  have d: "js ''male'' \<noteq> js ''female''" "js ''both'' \<noteq> js ''female''" "js ''male'' \<noteq> js ''both''"
    by (simp_all add: js_def)
  have h: "(\<forall>x\<in>set ?refs. genderSpec ascii_runtime x \<noteq> Some (js ''female''))
      \<and> ?refs = [entry ''ALT'' ''7-56'' ''Male''] @ entry ''ALT'' ''7-45'' '' both ''
                  # [entry ''ALT'' ''7-40'' ''Both'']
      \<and> genderSpec ascii_runtime (entry ''ALT'' ''7-45'' '' both '') = Some (js ''both'')
      \<and> (\<forall>x\<in>set [entry ''ALT'' ''7-56'' ''Male'']. genderSpec ascii_runtime x \<noteq> Some (js ''both''))"
    using g d by simp
  from C4_selectBestGenderMatch_priority [of ascii_runtime "Some (js ''female'')" ?refs] h
  show ?thesis by blast
qed

text \<open>
  C9. When the test name of the observation is missing, or is empty once trimmed,
  \<open>findBestReferenceMatch\<close> returns null, whatever the index. (The model has no branch
  that raises: every statement of the source that could fail on an undefined value is
  guarded by \<open>?.\<close> or by a test, and the model follows these guards.)
\<close>

theorem C9_missing_test_name:
  assumes "LBTEST patientRow = None \<or> (\<exists>s. LBTEST patientRow = Some s \<and> trim s = [])"
  shows "findBestReferenceMatch rt patientRow referenceMap = None"
  using assms by (auto simp: findBestReferenceMatch_def)

theorem C9_missing_test_name_witness:
  "findBestReferenceMatch ascii_runtime
     \<lparr> LBTEST = None, LBORRES = Some (JStr (js ''11.06'')), Gender = Some (js ''Male'') \<rparr>
     glucose_index = None
   \<and> trim (js ''   '') = []
   \<and> findBestReferenceMatch ascii_runtime (observation ''   '' ''11.06'' ''Male'') glucose_index
     = None"
proof -
  have e: "trim (js ''   '') = []" by (simp add: trim_def char_defs)
  have "findBestReferenceMatch ascii_runtime
     \<lparr> LBTEST = None, LBORRES = Some (JStr (js ''11.06'')), Gender = Some (js ''Male'') \<rparr>
     glucose_index = None"
    by (rule C9_missing_test_name) simp
  moreover have "findBestReferenceMatch ascii_runtime (observation ''   '' ''11.06'' ''Male'')
     glucose_index = None"
    by (rule C9_missing_test_name) (simp add: observation_def e)
  ultimately show ?thesis using e by simp
qed

text \<open>
  C10. Whatever the observation and the index, the result of \<open>findBestReferenceMatch\<close> is
  null or an entry that stands in the entry list of some key of the index: no entry is
  made up and none is changed. (The index is an argument that the function only reads,
  through \<open>keys\<close> and \<open>get\<close>; the lists it filters and sorts are its own copies.)
\<close>

theorem C10_result_is_stored:
  assumes "findBestReferenceMatch rt patientRow referenceMap = Some r"
  shows "storedIn referenceMap r"
proof -
  from assms obtain t where t: "LBTEST patientRow = Some t" and ne: "trim t \<noteq> []"
    by (auto simp: findBestReferenceMatch_def split: option.splits if_splits)
  let ?pg = "normalized rt (Gender patientRow)"
  let ?exact = "case find (\<lambda>key. toLowerCase rt key = toLowerCase rt (trim t))
                       (map fst referenceMap) of
                  Some key \<Rightarrow> if key \<noteq> [] then Some key else None
                | None \<Rightarrow> None"
  show ?thesis
  proof (cases ?exact)
    case (Some key)
    with assms t ne have "exactStrategy rt patientRow referenceMap (trim t) ?pg key = Some r"
      by (simp add: findBestReferenceMatch_def Let_def)
    then show ?thesis by (rule exactStrategy_stored)
  next
    case None
    show ?thesis
    proof (cases "containsStrategy rt patientRow referenceMap (trim t) ?pg")
      case (Some res)
      with assms t ne None
      have "containsStrategy rt patientRow referenceMap (trim t) ?pg = Some (Some r)"
        by (simp add: findBestReferenceMatch_def Let_def)
      then show ?thesis by (rule containsStrategy_stored)
    next
      case c: None
      with assms t ne None have "fuzzyStrategy rt referenceMap (trim t) ?pg = Some r"
        by (simp add: findBestReferenceMatch_def Let_def)
      then show ?thesis by (rule fuzzyStrategy_stored)
    qed
  qed
qed

theorem C10_result_is_stored_witness:
  "findBestReferenceMatch ascii_runtime (observation ''WBC Count (manual)'' ''8187.7'' ''Male'')
     wbc_index = Some (entry ''WBC Count'' ''4,000 - 11,000'' ''Both'')
   \<and> storedIn wbc_index (entry ''WBC Count'' ''4,000 - 11,000'' ''Both'')"
proof -
  have e: "findBestReferenceMatch ascii_runtime
      (observation ''WBC Count (manual)'' ''8187.7'' ''Male'') wbc_index
    = Some (entry ''WBC Count'' ''4,000 - 11,000'' ''Both'')"
    by (simp add: resolver_defs example_defs char_defs)
  from C10_result_is_stored [OF e] e show ?thesis by simp
qed

section \<open>Substrings\<close>

lemma startsWith_iff: "startsWith s t \<longleftrightarrow> (\<exists>q. s = t @ q)"
  by (induction s t rule: startsWith.induct) auto

lemma str_includes_iff: "str_includes s t \<longleftrightarrow> (\<exists>p q. s = p @ t @ q)"
proof (induction s)
  case Nil
  show ?case by auto
next
  case (Cons c s)
  have "(\<exists>p q. c # s = p @ t @ q) \<longleftrightarrow> (\<exists>q. c # s = t @ q) \<or> (\<exists>p q. s = p @ t @ q)"
  proof
    assume "\<exists>p q. c # s = p @ t @ q"
    then obtain p q where e: "c # s = p @ t @ q" by blast
    show "(\<exists>q. c # s = t @ q) \<or> (\<exists>p q. s = p @ t @ q)"
    proof (cases p)
      case Nil
      with e show ?thesis by auto
    next
      case (Cons a p')
      with e have "s = p' @ t @ q" by simp
      then show ?thesis by blast
    qed
  next
    assume "(\<exists>q. c # s = t @ q) \<or> (\<exists>p q. s = p @ t @ q)"
    then show "\<exists>p q. c # s = p @ t @ q"
    proof
      assume "\<exists>q. c # s = t @ q"
      then obtain q where "c # s = [] @ t @ q" by auto
      then show ?thesis by blast
    next
      assume "\<exists>p q. s = p @ t @ q"
      then obtain p q where "c # s = (c # p) @ t @ q" by auto
      then show ?thesis by blast
    qed
  qed
  with Cons.IH show ?case by (simp add: startsWith_iff)
qed

lemma str_includes_refl: "str_includes s s"
proof -
  have "s = [] @ s @ []" by simp
  then show ?thesis unfolding str_includes_iff by blast
qed

lemma str_includes_trans:
  assumes "str_includes a b" and "str_includes b c"
  shows "str_includes a c"
proof -
  from assms obtain p q p' q' where "a = p @ b @ q" "b = p' @ c @ q'"
    unfolding str_includes_iff by blast
  then have "a = (p @ p') @ c @ (q' @ q)" by simp
  then show ?thesis unfolding str_includes_iff by blast
qed

section \<open>The exact-key strategy in the words of the specification\<close>

lemmas spec_defs = overrideKeys_def entriesOf_def rangeExpression_def looksNumeric_def
  numericCandidates_def isGlucoseFasting_def glucose_random_index_def
  glucose_random_2h_index_def protein_index_def

lemma betterAlternatives_overrideKeys: "betterAlternatives rt m tn = overrideKeys rt m tn"
  by (simp add: betterAlternatives_def overrideKeys_def)

lemma isNumericRange_looksNumeric: "isNumericRange rt = looksNumeric rt"
  by (rule ext)
     (simp add: isNumericRange_def looksNumeric_def normalRange_def rangeExpression_def
        hasDigit_def list_ex_iff isDigit_def)

lemma refOptions_entries:
  "refOptions m (key # keys) = entriesOf m key @ concat (map (entriesOf m) keys)"
  by (simp add: refOptions_def entriesOf_def[abs_def])

lemma pooled_candidates:
  "filter (isNumericRange rt) (refOptions m (ek # betterAlternatives rt m tn))
   = numericCandidates rt m ek tn"
  by (simp only: numericCandidates_def refOptions_entries betterAlternatives_overrideKeys
      isNumericRange_looksNumeric)

lemma isGlucose_iff: "isGlucose rt tn \<longleftrightarrow> str_includes (toLowerCase rt tn) (js ''glucose'')"
  by (auto simp: isGlucose_def str_includes_refl)

lemma patient_digit:
  "LBORRES row = Some v \<Longrightarrow>
   hasDigit (patientValue rt row) \<longleftrightarrow> (\<exists>c\<in>set (valueToString rt v). 48 \<le> c \<and> c \<le> 57)"
  by (simp add: patientValue_def hasDigit_def list_ex_iff isDigit_def)

lemma exact_reached:
  assumes "LBTEST row = Some t" and "trim t \<noteq> []"
    and "find (\<lambda>key. toLowerCase rt key = toLowerCase rt (trim t)) (map fst m) = Some ek"
    and "ek \<noteq> []"
  shows "findBestReferenceMatch rt row m
    = exactStrategy rt row m (trim t) (normalized rt (Gender row)) ek"
  using assms by (simp add: findBestReferenceMatch_def Let_def)

lemma numericOverride_fires:
  assumes "hasDigit (patientValue rt row)"
    and "filter (isNumericRange rt) (refOptions m keys) \<noteq> []"
  shows "numericOverride rt row m pg keys
    = Some (selectBestGenderMatch rt (filter (isNumericRange rt) (refOptions m keys)) pg)"
proof -
  from select_nonempty[OF assms(2), of rt pg] obtain r
    where "selectBestGenderMatch rt (filter (isNumericRange rt) (refOptions m keys)) pg = Some r"
    by blast
  with assms show ?thesis by (simp add: numericOverride_def Let_def)
qed

lemma numericOverride_none:
  "filter (isNumericRange rt) (refOptions m keys) = [] \<Longrightarrow>
   numericOverride rt row m pg keys = None"
  by (simp add: numericOverride_def Let_def)

text \<open>Lines 44-56 at work: the test name names glucose and an override key contains
  \<open>fasting\<close>.\<close>

lemma exactStrategy_glucose_fasting:
  assumes "isGlucose rt tn"
    and "find (\<lambda>alt. str_includes (toLowerCase rt alt) (js ''fasting''))
           (betterAlternatives rt m tn) = Some fk"
    and "fk \<noteq> []" and "map_of m fk = Some refs"
  shows "exactStrategy rt row m tn pg ek = selectBestGenderMatch rt refs pg"
proof -
  from assms(2) have "betterAlternatives rt m tn \<noteq> []" by auto
  moreover have "glucoseOverride rt m tn pg (betterAlternatives rt m tn)
      = Some (selectBestGenderMatch rt refs pg)"
    using assms by (simp add: glucoseOverride_def)
  ultimately show ?thesis
    by (simp add: exactStrategy_def exactOverride_def Let_def)
qed

text \<open>Lines 105-123 at work: the test name names glucose, the value has a digit, and the
  statements of lines 41-100 have returned nothing.\<close>

lemma exactStrategy_final_check:
  assumes "isGlucose rt tn" and "hasDigit (patientValue rt row)"
    and "exactOverride rt row m tn pg ek = None"
    and "find (isGlucoseFasting rt) (map fst m) = Some fk"
    and "fk \<noteq> []" and "map_of m fk = Some refs"
  shows "exactStrategy rt row m tn pg ek = selectBestGenderMatch rt refs pg"
proof -
  have f: "find (\<lambda>key. str_includes (toLowerCase rt key) (js ''glucose'')
                       \<and> str_includes (toLowerCase rt key) (js ''fasting'')) (map fst m)
      = Some fk"
    using assms(4) by (simp add: isGlucoseFasting_def[abs_def])
  show ?thesis
  proof (cases "fk = ek")
    case True
    with assms f have "finalGlucoseCheck rt row m tn pg ek = None"
      by (simp add: finalGlucoseCheck_def)
    with assms(3,6) True show ?thesis
      by (simp add: exactStrategy_def selectFromKey_def)
  next
    case False
    with assms f have "finalGlucoseCheck rt row m tn pg ek
        = Some (selectBestGenderMatch rt refs pg)"
      by (simp add: finalGlucoseCheck_def)
    with assms(3) show ?thesis by (simp add: exactStrategy_def)
  qed
qed

section \<open>Claims about the exact-key strategy\<close>

text \<open>
  C2, as the specification states it, inside the exact-key strategy: the test name
  \<open>Glucose Random\<close> contains \<open>glucose\<close> and has its own key, the value has a digit, and the
  index has the keys \<open>glucose\<close> and \<open>glucose (fasting)\<close>. The key \<open>glucose random 2h\<close> is
  an override key without \<open>fasting\<close> in it, so the numeric preference of lines 58-99
  returns before the glucose rule of lines 105-123 is reached: the result is the entry of
  \<open>glucose random\<close>, which is not a glucose-fasting key.
\<close>

theorem C2_numeric_override_counterexample:
  "map fst glucose_random_2h_index
     = [js ''glucose'', js ''glucose (fasting)'', js ''glucose random'', js ''glucose random 2h'']
   \<and> filter (isGlucoseFasting ascii_runtime) (map fst glucose_random_2h_index)
     = [js ''glucose (fasting)'']
   \<and> map_of glucose_random_2h_index (js ''glucose (fasting)'')
     = Some [entry ''Glucose (Fasting)'' ''3.9 - 5.6'' ''Both'']
   \<and> str_includes (toLowerCase ascii_runtime (trim (js ''Glucose Random''))) (js ''glucose'')
   \<and> find (\<lambda>key. toLowerCase ascii_runtime key
                     = toLowerCase ascii_runtime (trim (js ''Glucose Random'')))
        (map fst glucose_random_2h_index) = Some (js ''glucose random'')
   \<and> hasDigit (js ''6.1'')
   \<and> findBestReferenceMatch ascii_runtime (observation ''Glucose Random'' ''6.1'' ''Male'')
        glucose_random_2h_index = Some (entry ''Glucose Random'' ''3.9 - 7.8'' ''Both'')
   \<and> entry ''Glucose Random'' ''3.9 - 7.8'' ''Both''
     \<noteq> entry ''Glucose (Fasting)'' ''3.9 - 5.6'' ''Both''"
  by (simp add: resolver_defs spec_defs example_defs char_defs)

text \<open>
  C2, amended. Let the trimmed test name of the observation have an exact key (a key
  equal to it once both are case-folded) and contain \<open>glucose\<close> (or be it), let the raw
  value contain a digit, and let some key of the index contain both \<open>glucose\<close> and
  \<open>fasting\<close>. Unless the numeric preference of lines 58-99 applies first (the test name
  has override keys, none of them contains \<open>fasting\<close>, and there is a numeric candidate),
  the result is the gender selection among the entries of a glucose-fasting key, and so
  one of these entries when there is any: the first override key that contains \<open>fasting\<close>
  when there is one (lines 44-56), and otherwise the first glucose-fasting key of the
  index (lines 105-123). For the test name \<open>Glucose\<close> and the value \<open>11.06\<close> it is the
  entry of \<open>glucose (fasting)\<close>, and so it is for the test name \<open>Glucose Random\<close> with a
  key of its own. (The hypothesis on the runtime says that the empty string is its own
  lower case.)
\<close>

theorem C2_glucose_prefers_fasting:
  assumes t: "LBTEST patientRow = Some t"
    and ek: "find (\<lambda>key. toLowerCase rt key = toLowerCase rt (trim t)) (map fst referenceMap)
               = Some exactMatch"
    and gl: "str_includes (toLowerCase rt (trim t)) (js ''glucose'')"
    and v: "LBORRES patientRow = Some v"
    and digit: "\<exists>c\<in>set (valueToString rt v). 48 \<le> c \<and> c \<le> 57"
    and lower_empty: "toLowerCase rt [] = []"
    and fasting: "\<exists>key\<in>set (map fst referenceMap). isGlucoseFasting rt key"
    and guard: "overrideKeys rt referenceMap (trim t) = []
                \<or> (\<exists>alt\<in>set (overrideKeys rt referenceMap (trim t)).
                      str_includes (toLowerCase rt alt) (js ''fasting''))
                \<or> numericCandidates rt referenceMap exactMatch (trim t) = []"
  shows "(\<exists>fk refs.
            (find (\<lambda>alt. str_includes (toLowerCase rt alt) (js ''fasting''))
                  (overrideKeys rt referenceMap (trim t)) = Some fk
             \<or> (find (\<lambda>alt. str_includes (toLowerCase rt alt) (js ''fasting''))
                      (overrideKeys rt referenceMap (trim t)) = None
                 \<and> find (isGlucoseFasting rt) (map fst referenceMap) = Some fk))
            \<and> isGlucoseFasting rt fk
            \<and> map_of referenceMap fk = Some refs
            \<and> findBestReferenceMatch rt patientRow referenceMap
                = selectBestGenderMatch rt refs (normalized rt (Gender patientRow))
            \<and> (refs \<noteq> [] \<longrightarrow>
                 (\<exists>r\<in>set refs. findBestReferenceMatch rt patientRow referenceMap = Some r)))
       \<and> findBestReferenceMatch ascii_runtime (observation ''Glucose'' ''11.06'' ''Male'')
            glucose_index = Some (entry ''Glucose (Fasting)'' ''3.9 - 5.6'' ''Both'')
       \<and> findBestReferenceMatch ascii_runtime (observation ''Glucose Random'' ''6.1'' ''Male'')
            glucose_random_index = Some (entry ''Glucose (Fasting)'' ''3.9 - 5.6'' ''Both'')"
proof -
  let ?keys = "map fst referenceMap"
  let ?tn = "trim t"
  let ?pg = "normalized rt (Gender patientRow)"
  let ?alts = "overrideKeys rt referenceMap ?tn"
  let ?F = "\<lambda>alt. str_includes (toLowerCase rt alt) (js ''fasting'')"
  let ?res = "findBestReferenceMatch rt patientRow referenceMap"
  have g0: "js ''glucose'' \<noteq> []" "js ''fasting'' \<noteq> []" by (simp_all add: js_def)
  have nonempty: "k \<noteq> []" if "str_includes (toLowerCase rt k) w" "w \<noteq> []" for k w
  proof
    assume "k = []"
    with that(1) lower_empty have "str_includes [] w" by simp
    with that(2) show False by simp
  qed
  from nonempty[OF gl g0(1)] have ne: "?tn \<noteq> []" .
  from find_mem[OF ek] have ekin: "exactMatch \<in> set ?keys"
    and eklow: "toLowerCase rt exactMatch = toLowerCase rt ?tn" by simp_all
  from gl eklow have "str_includes (toLowerCase rt exactMatch) (js ''glucose'')" by simp
  from nonempty[OF this g0(1)] have ekne: "exactMatch \<noteq> []" .
  have top: "?res = exactStrategy rt patientRow referenceMap ?tn ?pg exactMatch"
    by (rule exact_reached[OF t ne ek ekne])
  have isg: "isGlucose rt ?tn" using gl by (simp add: isGlucose_iff)
  have dig: "hasDigit (patientValue rt patientRow)"
    using digit by (simp add: patient_digit[OF v])
  have general: "\<exists>fk refs.
            (find ?F ?alts = Some fk
             \<or> (find ?F ?alts = None \<and> find (isGlucoseFasting rt) ?keys = Some fk))
            \<and> isGlucoseFasting rt fk
            \<and> map_of referenceMap fk = Some refs
            \<and> ?res = selectBestGenderMatch rt refs ?pg"
  proof (cases "find ?F ?alts")
    case (Some fk)
    from find_mem[OF Some] have fkalt: "fk \<in> set ?alts" and fkf: "?F fk" by simp_all
    from fkalt have fkin: "fk \<in> set ?keys"
      and fkt: "str_includes (toLowerCase rt fk) (toLowerCase rt ?tn)"
      by (simp_all add: overrideKeys_def)
    from str_includes_trans[OF fkt gl] fkf have gf: "isGlucoseFasting rt fk"
      by (simp add: isGlucoseFasting_def)
    from nonempty[OF fkf g0(2)] have fkne: "fk \<noteq> []" .
    from map_of_key[OF fkin] obtain refs where refs: "map_of referenceMap fk = Some refs" ..
    have "find ?F (betterAlternatives rt referenceMap ?tn) = Some fk"
      using Some by (simp add: betterAlternatives_overrideKeys)
    from exactStrategy_glucose_fasting[OF isg this fkne refs] top
    have "?res = selectBestGenderMatch rt refs ?pg" by simp
    with Some gf refs show ?thesis by blast
  next
    case None
    then have nof: "\<not> (\<exists>alt\<in>set ?alts. ?F alt)" by (simp add: find_None_iff)
    with guard have g': "?alts = [] \<or> numericCandidates rt referenceMap exactMatch ?tn = []"
      by blast
    have go: "glucoseOverride rt referenceMap ?tn ?pg (betterAlternatives rt referenceMap ?tn)
        = None"
      using None by (simp add: glucoseOverride_def betterAlternatives_overrideKeys)
    have eo: "exactOverride rt patientRow referenceMap ?tn ?pg exactMatch = None"
    proof (cases "?alts = []")
      case True
      then show ?thesis by (simp add: exactOverride_def betterAlternatives_overrideKeys)
    next
      case False
      with g' have "numericCandidates rt referenceMap exactMatch ?tn = []" by simp
      then have "numericOverride rt patientRow referenceMap ?pg
          (exactMatch # betterAlternatives rt referenceMap ?tn) = None"
        by (simp add: numericOverride_none pooled_candidates)
      with go show ?thesis by (simp add: exactOverride_def Let_def)
    qed
    from find_exists[OF fasting] obtain fk
      where fk: "find (isGlucoseFasting rt) ?keys = Some fk" ..
    from find_mem[OF fk] have fkin: "fk \<in> set ?keys" and gf: "isGlucoseFasting rt fk"
      by simp_all
    from gf have "str_includes (toLowerCase rt fk) (js ''glucose'')"
      by (simp add: isGlucoseFasting_def)
    from nonempty[OF this g0(1)] have fkne: "fk \<noteq> []" .
    from map_of_key[OF fkin] obtain refs where refs: "map_of referenceMap fk = Some refs" ..
    from exactStrategy_final_check[OF isg dig eo fk fkne refs] top
    have "?res = selectBestGenderMatch rt refs ?pg" by simp
    with None fk gf refs show ?thesis by blast
  qed
  then obtain fk refs where
    which: "find ?F ?alts = Some fk
             \<or> (find ?F ?alts = None \<and> find (isGlucoseFasting rt) ?keys = Some fk)"
    and gf: "isGlucoseFasting rt fk" and refs: "map_of referenceMap fk = Some refs"
    and res: "?res = selectBestGenderMatch rt refs ?pg" by blast
  have "\<exists>r\<in>set refs. ?res = Some r" if "refs \<noteq> []"
    using select_nonempty[OF that, of rt ?pg] res by simp
  with which gf refs res have first: "\<exists>fk refs.
            (find ?F ?alts = Some fk
             \<or> (find ?F ?alts = None \<and> find (isGlucoseFasting rt) ?keys = Some fk))
            \<and> isGlucoseFasting rt fk
            \<and> map_of referenceMap fk = Some refs
            \<and> ?res = selectBestGenderMatch rt refs ?pg
            \<and> (refs \<noteq> [] \<longrightarrow> (\<exists>r\<in>set refs. ?res = Some r))"
    by blast
  have examples:
    "findBestReferenceMatch ascii_runtime (observation ''Glucose'' ''11.06'' ''Male'')
       glucose_index = Some (entry ''Glucose (Fasting)'' ''3.9 - 5.6'' ''Both'')"
    "findBestReferenceMatch ascii_runtime (observation ''Glucose Random'' ''6.1'' ''Male'')
       glucose_random_index = Some (entry ''Glucose (Fasting)'' ''3.9 - 5.6'' ''Both'')"
    by (simp_all add: resolver_defs spec_defs example_defs char_defs)
  from first examples show ?thesis by simp
qed

theorem C2_glucose_prefers_fasting_witness:
  "overrideKeys ascii_runtime glucose_random_index (trim (js ''Glucose Random '')) = []
   \<and> find (isGlucoseFasting ascii_runtime) (map fst glucose_random_index)
     = Some (js ''glucose (fasting)'')
   \<and> findBestReferenceMatch ascii_runtime (observation ''Glucose Random '' ''6.1 mmol/L'' ''Female'')
       glucose_random_index
     = selectBestGenderMatch ascii_runtime [entry ''Glucose (Fasting)'' ''3.9 - 5.6'' ''Both'']
         (Some (js ''female''))"
proof -
  let ?row = "observation ''Glucose Random '' ''6.1 mmol/L'' ''Female''"
  have o: "overrideKeys ascii_runtime glucose_random_index (trim (js ''Glucose Random '')) = []"
    by (simp add: spec_defs example_defs char_defs)
  have h: "LBTEST ?row = Some (js ''Glucose Random '')"
    "find (\<lambda>key. toLowerCase ascii_runtime key
                   = toLowerCase ascii_runtime (trim (js ''Glucose Random '')))
       (map fst glucose_random_index) = Some (js ''glucose random'')"
    "str_includes (toLowerCase ascii_runtime (trim (js ''Glucose Random ''))) (js ''glucose'')"
    "LBORRES ?row = Some (JStr (js ''6.1 mmol/L''))"
    "\<exists>c\<in>set (valueToString ascii_runtime (JStr (js ''6.1 mmol/L''))). 48 \<le> c \<and> c \<le> 57"
    "toLowerCase ascii_runtime [] = []"
    "\<exists>key\<in>set (map fst glucose_random_index). isGlucoseFasting ascii_runtime key"
    by (simp_all add: spec_defs valueToString_def example_defs char_defs)
  have g: "overrideKeys ascii_runtime glucose_random_index (trim (js ''Glucose Random '')) = []
      \<or> (\<exists>alt\<in>set (overrideKeys ascii_runtime glucose_random_index (trim (js ''Glucose Random ''))).
            str_includes (toLowerCase ascii_runtime alt) (js ''fasting''))
      \<or> numericCandidates ascii_runtime glucose_random_index (js ''glucose random'')
           (trim (js ''Glucose Random '')) = []"
    using o by simp
  have f: "find (isGlucoseFasting ascii_runtime) (map fst glucose_random_index)
      = Some (js ''glucose (fasting)'')"
    and m: "map_of glucose_random_index (js ''glucose (fasting)'')
      = Some [entry ''Glucose (Fasting)'' ''3.9 - 5.6'' ''Both'']"
    and pg: "normalized ascii_runtime (Gender ?row) = Some (js ''female'')"
    by (simp_all add: spec_defs normalized_def example_defs char_defs)
  from C2_glucose_prefers_fasting [OF h g] obtain fk refs where
    which: "find (\<lambda>alt. str_includes (toLowerCase ascii_runtime alt) (js ''fasting''))
              (overrideKeys ascii_runtime glucose_random_index (trim (js ''Glucose Random '')))
            = Some fk
          \<or> find (isGlucoseFasting ascii_runtime) (map fst glucose_random_index) = Some fk"
    and refs: "map_of glucose_random_index fk = Some refs"
    and res: "findBestReferenceMatch ascii_runtime ?row glucose_random_index
      = selectBestGenderMatch ascii_runtime refs (normalized ascii_runtime (Gender ?row))"
    by blast
  from which have "fk = js ''glucose (fasting)''" unfolding o f by simp
  with refs m have "refs = [entry ''Glucose (Fasting)'' ''3.9 - 5.6'' ''Both'']" by simp
  with res pg o f show ?thesis by simp
qed

text \<open>
  C3, as the specification states it: the best gender match is chosen among the numeric
  ranges of the override keys, in preference to the entries of the exact key. The source
  puts the entries of the exact key in front of those of the override keys and chooses
  among the numeric ranges of all of them: here the entry of the exact key \<open>wbc\<close> wins
  over the numeric entry of the override key \<open>wbc count\<close>.
\<close>

theorem C3_override_only_counterexample:
  "hasDigit (js ''7.5'')
   \<and> find (\<lambda>key. toLowerCase ascii_runtime key = toLowerCase ascii_runtime (trim (js ''WBC'')))
        (map fst wbc_index) = Some (js ''wbc'')
   \<and> overrideKeys ascii_runtime wbc_index (trim (js ''WBC'')) = [js ''wbc count'']
   \<and> filter (looksNumeric ascii_runtime) (entriesOf wbc_index (js ''wbc count''))
        = [entry ''WBC Count'' ''4,000 - 11,000'' ''Both'']
   \<and> selectBestGenderMatch ascii_runtime [entry ''WBC Count'' ''4,000 - 11,000'' ''Both'']
        (Some (js ''male'')) = Some (entry ''WBC Count'' ''4,000 - 11,000'' ''Both'')
   \<and> findBestReferenceMatch ascii_runtime (observation ''WBC'' ''7.5'' ''Male'') wbc_index
        = Some (entry ''WBC'' ''4.0 - 11.0'' ''Both'')
   \<and> entry ''WBC'' ''4.0 - 11.0'' ''Both'' \<noteq> entry ''WBC Count'' ''4,000 - 11,000'' ''Both''"
  by (simp add: resolver_defs spec_defs example_defs char_defs)

text \<open>
  C3, amended. In the exact-key strategy, let the exact key have override keys (other keys
  whose case-folded form contains the case-folded test name), let the raw value of the
  observation contain a digit, and let the glucose rule of lines 44-56 not apply (the test
  name does not contain \<open>glucose\<close>, or no override key contains \<open>fasting\<close>). The candidates
  are the entries of the exact key followed by those of the override keys, key after key.
  If at least one candidate has a numeric-looking range expression (it contains a digit
  and contains neither \<open>negative\<close> nor \<open>positive\<close>, case-folded), the result is the best
  gender match among the numeric-looking candidates, the exact key's own entries included
  and in front; it is one of them, and so it looks numeric. With the keys \<open>protein\<close> and
  \<open>protein (urine)\<close>, both \<open>Negative\<close>, and \<open>protein (total)\<close> with \<open>6.0 - 8.3\<close>, the test
  \<open>Protein\<close> with the value \<open>7.1\<close> gets the entry of \<open>protein (total)\<close>.
\<close>

theorem C3_numeric_preference_exact:
  assumes t: "LBTEST patientRow = Some t" and ne: "trim t \<noteq> []"
    and ek: "find (\<lambda>key. toLowerCase rt key = toLowerCase rt (trim t)) (map fst referenceMap)
               = Some exactMatch"
    and ekne: "exactMatch \<noteq> []"
    and alts: "overrideKeys rt referenceMap (trim t) \<noteq> []"
    and nogl: "str_includes (toLowerCase rt (trim t)) (js ''glucose'') \<longrightarrow>
                 (\<forall>alt\<in>set (overrideKeys rt referenceMap (trim t)).
                    \<not> str_includes (toLowerCase rt alt) (js ''fasting''))"
    and v: "LBORRES patientRow = Some v"
    and digit: "\<exists>c\<in>set (valueToString rt v). 48 \<le> c \<and> c \<le> 57"
    and cands: "numericCandidates rt referenceMap exactMatch (trim t) \<noteq> []"
  shows "findBestReferenceMatch rt patientRow referenceMap
           = selectBestGenderMatch rt (numericCandidates rt referenceMap exactMatch (trim t))
               (normalized rt (Gender patientRow))
       \<and> (\<exists>r\<in>set (numericCandidates rt referenceMap exactMatch (trim t)).
             findBestReferenceMatch rt patientRow referenceMap = Some r \<and> looksNumeric rt r)
       \<and> findBestReferenceMatch ascii_runtime (observation ''Protein'' ''7.1'' ''Female'')
            protein_index = Some (entry ''Protein (Total)'' ''6.0 - 8.3'' ''Both'')"
proof -
  let ?tn = "trim t"
  let ?pg = "normalized rt (Gender patientRow)"
  let ?alts = "betterAlternatives rt referenceMap ?tn"
  let ?cands = "numericCandidates rt referenceMap exactMatch ?tn"
  let ?res = "findBestReferenceMatch rt patientRow referenceMap"
  have top: "?res = exactStrategy rt patientRow referenceMap ?tn ?pg exactMatch"
    by (rule exact_reached[OF t ne ek ekne])
  have altsne: "?alts \<noteq> []" using alts by (simp add: betterAlternatives_overrideKeys)
  have go: "glucoseOverride rt referenceMap ?tn ?pg ?alts = None"
  proof (cases "isGlucose rt ?tn")
    case True
    with nogl have "find (\<lambda>alt. str_includes (toLowerCase rt alt) (js ''fasting'')) ?alts = None"
      by (simp add: find_None_iff isGlucose_iff betterAlternatives_overrideKeys)
    then show ?thesis by (simp add: glucoseOverride_def)
  next
    case False
    then show ?thesis by (simp add: glucoseOverride_def)
  qed
  have dig: "hasDigit (patientValue rt patientRow)"
    using digit by (simp add: patient_digit[OF v])
  have "filter (isNumericRange rt) (refOptions referenceMap (exactMatch # ?alts)) \<noteq> []"
    using cands by (simp add: pooled_candidates)
  from numericOverride_fires[OF dig this, of ?pg]
  have "numericOverride rt patientRow referenceMap ?pg (exactMatch # ?alts)
      = Some (selectBestGenderMatch rt ?cands ?pg)"
    by (simp add: pooled_candidates)
  with altsne go have "exactStrategy rt patientRow referenceMap ?tn ?pg exactMatch
      = selectBestGenderMatch rt ?cands ?pg"
    by (simp add: exactStrategy_def exactOverride_def Let_def)
  with top have res: "?res = selectBestGenderMatch rt ?cands ?pg" by simp
  from select_nonempty[OF cands, of rt ?pg] obtain r
    where r: "r \<in> set ?cands" and sel: "selectBestGenderMatch rt ?cands ?pg = Some r" by blast
  from r have "looksNumeric rt r" by (auto simp: numericCandidates_def)
  with r sel res have mem: "\<exists>r\<in>set ?cands. ?res = Some r \<and> looksNumeric rt r" by auto
  have "findBestReferenceMatch ascii_runtime (observation ''Protein'' ''7.1'' ''Female'')
            protein_index = Some (entry ''Protein (Total)'' ''6.0 - 8.3'' ''Both'')"
    by (simp add: resolver_defs spec_defs example_defs char_defs)
  with res mem show ?thesis by simp
qed

theorem C3_numeric_preference_exact_witness:
  "entriesOf protein_index (js ''protein'') = [entry ''Protein'' ''Negative'' ''Both'']
   \<and> overrideKeys ascii_runtime protein_index (trim (js ''Protein''))
     = [js ''protein (urine)'', js ''protein (total)'']
   \<and> numericCandidates ascii_runtime protein_index (js ''protein'') (trim (js ''Protein''))
     = [entry ''Protein (Total)'' ''6.0 - 8.3'' ''Both'']
   \<and> findBestReferenceMatch ascii_runtime (observation ''Protein'' ''7.1 g/dL'' ''Male'')
       protein_index
     = selectBestGenderMatch ascii_runtime [entry ''Protein (Total)'' ''6.0 - 8.3'' ''Both'']
         (Some (js ''male''))
   \<and> selectFromKey ascii_runtime protein_index (js ''protein'') (Some (js ''male''))
     = Some (entry ''Protein'' ''Negative'' ''Both'')"
proof -
  let ?row = "observation ''Protein'' ''7.1 g/dL'' ''Male''"
  have e: "entriesOf protein_index (js ''protein'') = [entry ''Protein'' ''Negative'' ''Both'']"
    and o: "overrideKeys ascii_runtime protein_index (trim (js ''Protein''))
      = [js ''protein (urine)'', js ''protein (total)'']"
    by (simp_all add: spec_defs example_defs char_defs)
  have c: "numericCandidates ascii_runtime protein_index (js ''protein'') (trim (js ''Protein''))
      = [entry ''Protein (Total)'' ''6.0 - 8.3'' ''Both'']"
    unfolding numericCandidates_def o by (simp add: spec_defs example_defs char_defs)
  have h: "LBTEST ?row = Some (js ''Protein'')" "trim (js ''Protein'') \<noteq> []"
    "find (\<lambda>key. toLowerCase ascii_runtime key = toLowerCase ascii_runtime (trim (js ''Protein'')))
       (map fst protein_index) = Some (js ''protein'')"
    "js ''protein'' \<noteq> []"
    "overrideKeys ascii_runtime protein_index (trim (js ''Protein'')) \<noteq> []"
    "str_includes (toLowerCase ascii_runtime (trim (js ''Protein''))) (js ''glucose'') \<longrightarrow>
       (\<forall>alt\<in>set (overrideKeys ascii_runtime protein_index (trim (js ''Protein''))).
          \<not> str_includes (toLowerCase ascii_runtime alt) (js ''fasting''))"
    "LBORRES ?row = Some (JStr (js ''7.1 g/dL''))"
    "\<exists>c\<in>set (valueToString ascii_runtime (JStr (js ''7.1 g/dL''))). 48 \<le> c \<and> c \<le> 57"
    unfolding o by (simp_all add: spec_defs valueToString_def example_defs char_defs)
  have n: "numericCandidates ascii_runtime protein_index (js ''protein'') (trim (js ''Protein''))
      \<noteq> []"
    unfolding c by simp
  have pg: "normalized ascii_runtime (Gender ?row) = Some (js ''male'')"
    by (simp add: normalized_def example_defs char_defs)
  have s: "selectFromKey ascii_runtime protein_index (js ''protein'') (Some (js ''male''))
      = Some (entry ''Protein'' ''Negative'' ''Both'')"
    by (simp add: resolver_defs spec_defs example_defs char_defs)
  from C3_numeric_preference_exact [OF h n] e o c s show ?thesis
    unfolding pg by simp
qed

end
